theory Spec2Isabelle
  imports Main "HOL-Library.Finite_Map"
begin

section \<open>Errors\<close>

text \<open>
  The Go code reports failures as \<^verbatim>\<open>error\<close> values built with \<^verbatim>\<open>fmt.Errorf\<close>.
  Each call site of \<^verbatim>\<open>fmt.Errorf\<close> in \<^verbatim>\<open>sv/monorepo.go\<close> and in the monorepo
  handlers of \<^verbatim>\<open>cmd/git-sv/handlers.go\<close> is one constructor; a wrapped error is an
  argument. \<open>External\<close> is an error value produced by a collaborator (the file system,
  the git subprocess, the YAML/JSON and semver libraries). \<open>NilDereference\<close> is the
  run-time panic of reading through a nil \<^verbatim>\<open>*semver.Version\<close>.
\<close>

datatype error =
    EmptyPath
  | UnexpectedEndAfterBracket
  | ExpectedQuote char
  | UnclosedString
  | ExpectedCloseBracket
  | NoSegments string
  | KeyNotFound string
  | NotAMap string
  | InvalidPath string error
  | AtPath string error
  | NotAString string
  | InvalidSemver string string error
  | ParseJSON error
  | ParseYAML error
  | MarshalJSON error
  | MarshalYAML error
  | NotConfigured
  | InvalidGlob string error
  | NoFilesMatched string
  | ReadingVersion string error
  | FindingComponents error
  | GettingCommits string error
  | UpdatingVersion string error
  | ResolvingPath string error
  | CreatingTag string error
  | External string
  | NilDereference

section \<open>Document tree\<close>

text \<open>
  \<^verbatim>\<open>map[string]interface{}\<close> as the YAML and JSON decoders fill it: a finite map from
  keys to values, a value being a string, another scalar, a list or a nested map.
\<close>

datatype val =
    VStr string
  | VInt int
  | VBool bool
  | VNull
  | VList "val list"
  | VMap "(string, val) fmap"

type_synonym doc = "(string, val) fmap"

section \<open>Path navigation\<close>

text \<open>
  \<^verbatim>\<open>getByPath\<close> (sv/monorepo.go): the empty path is an error; otherwise the first
  segment is looked up in the current map, its absence is an error; with one segment
  left the value found is the result; otherwise the value has to be a map, in which the
  rest of the path is followed.
\<close>

fun getByPath :: "doc \<Rightarrow> string list \<Rightarrow> error + val" where
  "getByPath data [] = Inl EmptyPath"
| "getByPath data (s # rest) =
     (case fmlookup data s of
        None \<Rightarrow> Inl (KeyNotFound s)
      | Some v \<Rightarrow>
          if rest = [] then Inr v
          else (case v of
                  VMap nested \<Rightarrow> getByPath nested rest
                | _ \<Rightarrow> Inl (NotAMap s)))"

text \<open>
  \<^verbatim>\<open>setByPath\<close> (sv/monorepo.go) mutates the map it is given and returns an error or
  nil. The model returns the map as it is after the call together with the error. A
  nested map is a reference in Go: what the recursive call does to it is seen through the
  parent, so the parent is rebuilt around the nested map the recursive call leaves.
\<close>

fun setByPath :: "doc \<Rightarrow> string list \<Rightarrow> string \<Rightarrow> doc \<times> error option" where
  "setByPath data [] v = (data, Some EmptyPath)"
| "setByPath data [s] v =
     (case fmlookup data s of
        None \<Rightarrow> (data, Some (KeyNotFound s))
      | Some _ \<Rightarrow> (fmupd s (VStr v) data, None))"
| "setByPath data (s # rest) v =
     (case fmlookup data s of
        None \<Rightarrow> (data, Some (KeyNotFound s))
      | Some x \<Rightarrow>
          (case x of
             VMap nested \<Rightarrow>
               (case setByPath nested rest v of
                  (nested', err) \<Rightarrow> (fmupd s (VMap nested') data, err))
           | _ \<Rightarrow> (data, Some (NotAMap s))))"

text \<open>
  The walk of the specification (section 4.3), for comparison with the code: the
  mapping reached from \<open>data\<close> by following a sequence of segments, each of which has
  to be present and to hold a mapping. \<^verbatim>\<open>getByPath\<close> and \<^verbatim>\<open>setByPath\<close> walk all
  segments but the last in this way.
\<close>

fun walk_to :: "doc \<Rightarrow> string list \<Rightarrow> doc option" where
  "walk_to data [] = Some data"
| "walk_to data (s # rest) =
     (case fmlookup data s of
        Some (VMap nested) \<Rightarrow> walk_to nested rest
      | _ \<Rightarrow> None)"

text \<open>A small versioning document used to evaluate the navigation on concrete input.\<close>

definition example_doc :: doc where
  "example_doc =
     fmap_of_list
       [(''metadata'', VMap (fmap_of_list [(''version'', VStr ''1.0.0'')])),
        (''name'', VStr ''alpha'')]"

section \<open>Path expressions\<close>

text \<open>
  \<^verbatim>\<open>parsePath\<close> (sv/monorepo.go) scans the bytes of the path with an index \<open>i\<close>, a
  builder \<open>current\<close> and the segments found so far. The model passes the builder, the
  segments and the bytes from \<open>i\<close> on. \<open>flush\<close> is the statement
  \<^verbatim>\<open>if current.Len() > 0 { segments = append(segments, current.String()); current.Reset() }\<close>;
  \<open>skipDot\<close> is the optional dot after a closing bracket. The inner loop that copies
  the quoted text up to the closing quote is \<open>takeWhile\<close>, what it leaves is
  \<open>dropWhile\<close>.
\<close>

abbreviation DQ :: char where "DQ \<equiv> CHR 0x22"
abbreviation SQ :: char where "SQ \<equiv> CHR 0x27"

definition flush :: "string \<Rightarrow> string list \<Rightarrow> string list" where
  "flush cur segs = (if cur \<noteq> [] then segs @ [cur] else segs)"

fun skipDot :: "string \<Rightarrow> string" where
  "skipDot [] = []"
| "skipDot (c # r) = (if c = CHR ''.'' then r else c # r)"

function parseLoop :: "string \<Rightarrow> string list \<Rightarrow> string \<Rightarrow> error + string list" where
  "parseLoop cur segs [] = Inr (flush cur segs)"
| "parseLoop cur segs (c # rest) =
     (if c = CHR ''.'' then parseLoop [] (flush cur segs) rest
      else if c = CHR ''['' then
        (case rest of
           [] \<Rightarrow> Inl UnexpectedEndAfterBracket
         | quote # rest' \<Rightarrow>
             if quote \<noteq> DQ \<and> quote \<noteq> SQ then Inl (ExpectedQuote quote)
             else
               (case dropWhile (\<lambda>x. x \<noteq> quote) rest' of
                  [] \<Rightarrow> Inl UnclosedString
                | _ # after \<Rightarrow>
                    (case after of
                       [] \<Rightarrow> Inl ExpectedCloseBracket
                     | b # r \<Rightarrow>
                         if b \<noteq> CHR '']'' then Inl ExpectedCloseBracket
                         else parseLoop []
                                (flush cur segs @ [takeWhile (\<lambda>x. x \<noteq> quote) rest'])
                                (skipDot r))))
      else parseLoop (cur @ [c]) segs rest)"
  by pat_completeness auto
termination
proof (relation "measure (\<lambda>(cur, segs, rest). length rest)", goal_cases)
  case 1
  then show ?case by simp
next
  case (2 cur segs c rest)
  then show ?case by simp
next
  case (3 cur segs c rest quote rest' x after b r)
  have "length (dropWhile (\<lambda>x. x \<noteq> quote) rest') \<le> length rest'"
    by (rule length_dropWhile_le)
  with 3 have "Suc (Suc (length r)) \<le> length rest'" by simp
  moreover have "length (skipDot r) \<le> length r" by (cases r) auto
  ultimately show ?case using 3 by simp
next
  case (4 cur segs c rest)
  then show ?case by simp
qed

definition parsePath :: "string \<Rightarrow> error + string list" where
  "parsePath path =
     (if path = [] then Inl EmptyPath
      else
        (case parseLoop [] [] (if hd path = CHR ''.'' then tl path else path) of
           Inl e \<Rightarrow> Inl e
         | Inr segments \<Rightarrow>
             if segments = [] then Inl (NoSegments path) else Inr segments))"

text \<open>
  The grammar of the specification (section 4.3), for comparison with the code. A path
  expression is a sequence of items, each a plain key or a bracket-quoted literal with
  its quote character, and each followed by a dot or not. \<open>written\<close> is the text of such
  a sequence and \<open>segment\<close> the key an item stands for. A plain key is not empty and
  holds neither a dot nor an opening bracket; a literal does not hold its own quote
  character; two plain keys in a row are separated by a dot.
\<close>

datatype item = Key string | Quoted char string

fun segment :: "item \<Rightarrow> string" where
  "segment (Key s) = s"
| "segment (Quoted q l) = l"

fun item_text :: "item \<Rightarrow> string" where
  "item_text (Key s) = s"
| "item_text (Quoted q l) = CHR ''['' # q # l @ [q, CHR '']'']"

fun written :: "(item \<times> bool) list \<Rightarrow> string" where
  "written [] = []"
| "written ((it, dot) # rest) = item_text it @ (if dot then ''.'' else []) @ written rest"

fun is_Key :: "item \<Rightarrow> bool" where
  "is_Key (Key s) = True"
| "is_Key (Quoted q l) = False"

fun wf_item :: "item \<Rightarrow> bool" where
  "wf_item (Key s) = (s \<noteq> [] \<and> CHR ''.'' \<notin> set s \<and> CHR ''['' \<notin> set s)"
| "wf_item (Quoted q l) = ((q = DQ \<or> q = SQ) \<and> q \<notin> set l)"

fun wf_path :: "(item \<times> bool) list \<Rightarrow> bool" where
  "wf_path [] = True"
| "wf_path ((it, dot) # rest) =
     (wf_item it
      \<and> (is_Key it \<and> rest \<noteq> [] \<and> is_Key (fst (hd rest)) \<longrightarrow> dot)
      \<and> wf_path rest)"

section \<open>Versions, files and collaborators\<close>

text \<open>
  Modelled from the spec: the type \<^verbatim>\<open>semver.Version\<close> is missing; it belongs to the
  library \<^verbatim>\<open>github.com/Masterminds/semver/v3\<close>, which the repository imports.
  Section 3 of the specification gives its fields: major, minor, patch, pre-release,
  build metadata and the original literal string, which \<^verbatim>\<open>Original()\<close> returns.
  A \<^verbatim>\<open>*semver.Version\<close> is a \<open>version option\<close>, \<open>None\<close> being nil.
\<close>

record version =
  major :: nat
  minor :: nat
  patch :: nat
  prerelease :: string
  metadata :: string
  original :: string

text \<open>
  The working tree: the content of each file that exists, and the paths that cannot be
  opened for writing. \<^verbatim>\<open>os.ReadFile\<close> fails on a file that is not there;
  \<^verbatim>\<open>os.WriteFile\<close> creates or replaces the file unless the path is write-protected.
\<close>

record filesystem =
  files :: "(string, string) fmap"
  readonly :: "string fset"

definition ReadFile :: "filesystem \<Rightarrow> string \<Rightarrow> error + string" where
  "ReadFile fs p =
     (case fmlookup (files fs) p of
        None \<Rightarrow> Inl (External ''open: no such file or directory'')
      | Some content \<Rightarrow> Inr content)"

definition WriteFile :: "filesystem \<Rightarrow> string \<Rightarrow> string \<Rightarrow> filesystem \<times> error option" where
  "WriteFile fs p content =
     (if p |\<in>| readonly fs then (fs, Some (External ''open: permission denied''))
      else (fs\<lparr>files := fmupd p content (files fs)\<rparr>, None))"

text \<open>
  What the code calls without defining it in \<^verbatim>\<open>sv/monorepo.go\<close> or
  \<^verbatim>\<open>cmd/git-sv/handlers.go\<close>: the YAML and JSON codecs, the functions of
  \<^verbatim>\<open>path/filepath\<close> and \<^verbatim>\<open>strings\<close>, and \<^verbatim>\<open>sv.ToVersion\<close> (of \<^verbatim>\<open>sv/semver.go\<close>).
  They are parameters of the model. \<^verbatim>\<open>Glob\<close> reads the working tree.
\<close>

record env =
  jsonUnmarshal :: "string \<Rightarrow> error + doc"
  yamlUnmarshal :: "string \<Rightarrow> error + doc"
  jsonMarshalIndent :: "doc \<Rightarrow> error + string"
  yamlMarshal :: "doc \<Rightarrow> error + string"
  ToVersion :: "string \<Rightarrow> error + version"
  Glob :: "filesystem \<Rightarrow> string \<Rightarrow> error + string list"
  Join :: "string \<Rightarrow> string \<Rightarrow> string"
  Dir :: "string \<Rightarrow> string"
  Base :: "string \<Rightarrow> string"
  Ext :: "string \<Rightarrow> string"
  Rel :: "string \<Rightarrow> string \<Rightarrow> error + string"
  ToLower :: "string \<Rightarrow> string"

text \<open>
  \<^verbatim>\<open>MonorepoConfig\<close>, with the two fields the code reads (the glob pattern and the
  path expression), and \<^verbatim>\<open>MonorepoComponent\<close> (sv/monorepo.go).
\<close>

record MonorepoConfig =
  VersioningFile :: string
  Path :: string

record MonorepoComponent =
  Name :: string
  RootPath :: string
  VersioningFilePath :: string
  CurrentVersion :: "version option"

section \<open>Reading and writing the versioning file\<close>

definition parseFileContent :: "env \<Rightarrow> string \<Rightarrow> string \<Rightarrow> error + doc" where
  "parseFileContent E filePath content =
     (if ToLower E (Ext E filePath) = ''.json'' then
        (case jsonUnmarshal E content of
           Inl e \<Rightarrow> Inl (ParseJSON e)
         | Inr data \<Rightarrow> Inr data)
      else
        (case yamlUnmarshal E content of
           Inl e \<Rightarrow> Inl (ParseYAML e)
         | Inr data \<Rightarrow> Inr data))"

definition marshalToFile ::
  "env \<Rightarrow> filesystem \<Rightarrow> string \<Rightarrow> doc \<Rightarrow> filesystem \<times> error option" where
  "marshalToFile E fs filePath data =
     (if ToLower E (Ext E filePath) = ''.json'' then
        (case jsonMarshalIndent E data of
           Inl e \<Rightarrow> (fs, Some (MarshalJSON e))
         | Inr out \<Rightarrow> WriteFile fs filePath (out @ [CHR 0x0A]))
      else
        (case yamlMarshal E data of
           Inl e \<Rightarrow> (fs, Some (MarshalYAML e))
         | Inr out \<Rightarrow> WriteFile fs filePath out))"

definition ReadVersionFromBytes :: "env \<Rightarrow> string \<Rightarrow> string \<Rightarrow> string \<Rightarrow> error + version" where
  "ReadVersionFromBytes E filePath content dotPath =
     (case parseFileContent E filePath content of
        Inl e \<Rightarrow> Inl e
      | Inr data \<Rightarrow>
          (case parsePath dotPath of
             Inl e \<Rightarrow> Inl (InvalidPath dotPath e)
           | Inr segments \<Rightarrow>
               (case getByPath data segments of
                  Inl e \<Rightarrow> Inl (AtPath dotPath e)
                | Inr raw \<Rightarrow>
                    (case raw of
                       VStr vstr \<Rightarrow>
                         (case ToVersion E vstr of
                            Inl e \<Rightarrow> Inl (InvalidSemver dotPath vstr e)
                          | Inr v \<Rightarrow> Inr v)
                     | _ \<Rightarrow> Inl (NotAString dotPath)))))"

definition readVersionFromFile :: "env \<Rightarrow> filesystem \<Rightarrow> string \<Rightarrow> string \<Rightarrow> error + version" where
  "readVersionFromFile E fs filePath dotPath =
     (case ReadFile fs filePath of
        Inl e \<Rightarrow> Inl e
      | Inr content \<Rightarrow> ReadVersionFromBytes E filePath content dotPath)"

definition writeVersionToFile ::
  "env \<Rightarrow> filesystem \<Rightarrow> string \<Rightarrow> string \<Rightarrow> string \<Rightarrow> filesystem \<times> error option" where
  "writeVersionToFile E fs filePath dotPath ver =
     (case ReadFile fs filePath of
        Inl e \<Rightarrow> (fs, Some e)
      | Inr content \<Rightarrow>
          (case parseFileContent E filePath content of
             Inl e \<Rightarrow> (fs, Some e)
           | Inr data \<Rightarrow>
               (case parsePath dotPath of
                  Inl e \<Rightarrow> (fs, Some (InvalidPath dotPath e))
                | Inr segments \<Rightarrow>
                    (case setByPath data segments ver of
                       (data', Some e) \<Rightarrow> (fs, Some (AtPath dotPath e))
                     | (data', None) \<Rightarrow> marshalToFile E fs filePath data'))))"

section \<open>Component discovery and the version writer\<close>

text \<open>
  \<^verbatim>\<open>MonorepoProcessorImpl.FindComponents\<close> returns a slice and an error; the model
  returns both, the nil slice being the empty list. \<open>findLoop\<close> is the loop over the
  matches, with the components appended so far.
\<close>

fun findLoop ::
  "env \<Rightarrow> filesystem \<Rightarrow> MonorepoConfig \<Rightarrow> MonorepoComponent list \<Rightarrow> string list
   \<Rightarrow> MonorepoComponent list \<times> error option" where
  "findLoop E fs cfg components [] = (components, None)"
| "findLoop E fs cfg components (matchPath # rest) =
     (case readVersionFromFile E fs matchPath (Path cfg) of
        Inl e \<Rightarrow> ([], Some (ReadingVersion matchPath e))
      | Inr v \<Rightarrow>
          findLoop E fs cfg
            (components @
               [\<lparr>Name = Base E (Dir E matchPath), RootPath = Dir E matchPath,
                 VersioningFilePath = matchPath, CurrentVersion = Some v\<rparr>])
            rest)"

definition FindComponents ::
  "env \<Rightarrow> filesystem \<Rightarrow> string \<Rightarrow> MonorepoConfig \<Rightarrow> MonorepoComponent list \<times> error option" where
  "FindComponents E fs repoRoot cfg =
     (if VersioningFile cfg = [] then ([], Some NotConfigured)
      else
        (case Glob E fs (Join E repoRoot (VersioningFile cfg)) of
           Inl e \<Rightarrow> ([], Some (InvalidGlob (VersioningFile cfg) e))
         | Inr matches \<Rightarrow>
             if matches = [] then ([], Some (NoFilesMatched (VersioningFile cfg)))
             else findLoop E fs cfg [] matches))"

definition UpdateVersion ::
  "env \<Rightarrow> filesystem \<Rightarrow> MonorepoComponent \<Rightarrow> version \<Rightarrow> MonorepoConfig
   \<Rightarrow> filesystem \<times> error option" where
  "UpdateVersion E fs component ver cfg =
     writeVersionToFile E fs (VersioningFilePath component) (Path cfg) (original ver)"

section \<open>The repository-history collaborator\<close>

text \<open>
  Modelled from the spec: the declarations of \<^verbatim>\<open>sv/git.go\<close> (\<^verbatim>\<open>LogRange\<close>, its
  constructor \<^verbatim>\<open>NewLogRangeWithPaths\<close>, \<^verbatim>\<open>GitCommitLog\<close>) are missing. Section 3 of
  the specification has a log range carry its kind, its boundaries and a path filter, and
  the plan of the repository (PLAN.md) declares the struct with the range type, the
  start, the end and the paths, the constructor filling the four fields; the fields
  \<^verbatim>\<open>start\<close> and \<^verbatim>\<open>end\<close> are \<open>rangeStart\<close> and \<open>rangeEnd\<close> here. A history entry
  has the fields section 3 lists. The handlers pass entries on without reading them.
\<close>

datatype LogRangeType = TagRange | DateRange | HashRange

record LogRange =
  rangeType :: LogRangeType
  rangeStart :: string
  rangeEnd :: string
  paths :: "string list"

definition NewLogRangeWithPaths ::
  "LogRangeType \<Rightarrow> string \<Rightarrow> string \<Rightarrow> string list \<Rightarrow> LogRange" where
  "NewLogRangeWithPaths t s e ps = \<lparr>rangeType = t, rangeStart = s, rangeEnd = e, paths = ps\<rparr>"

record GitCommitLog =
  Hash :: string
  AuthorName :: string
  Date :: string
  Subject :: string
  CommitType :: string
  Scope :: string
  IsBreakingChange :: bool

text \<open>
  The interface \<^verbatim>\<open>sv.Git\<close>, with the methods the monorepo handlers call. The handlers
  receive an implementation (the tests of the handlers pass a mock), so it is a record of
  functions. They read the state \<open>'r\<close> of the repository; \<^verbatim>\<open>TagForComponent\<close> changes
  it. An empty string from \<^verbatim>\<open>LastComponentTag\<close> or \<^verbatim>\<open>LastFileCommit\<close> means that
  there is no such tag or commit.
\<close>

record 'r Git =
  LastComponentTag :: "'r \<Rightarrow> string \<Rightarrow> string"
  Log :: "'r \<Rightarrow> LogRange \<Rightarrow> error + GitCommitLog list"
  LastFileCommit :: "'r \<Rightarrow> string \<Rightarrow> string"
  ShowFile :: "'r \<Rightarrow> string \<Rightarrow> string \<Rightarrow> error + string"
  TagForComponent :: "'r \<Rightarrow> version \<Rightarrow> string \<Rightarrow> 'r \<times> (error + string)"

text \<open>
  The interface \<^verbatim>\<open>sv.SemVerCommitsProcessor\<close> has the one method \<^verbatim>\<open>NextVersion\<close>,
  from a base version and history entries to the next version and the flag
  \<^verbatim>\<open>updated\<close>.
\<close>

type_synonym SemVerCommitsProcessor =
  "version option \<Rightarrow> GitCommitLog list \<Rightarrow> version option \<times> bool"

text \<open>
  The interface \<^verbatim>\<open>sv.MonorepoProcessor\<close> (sv/monorepo.go), and
  \<^verbatim>\<open>MonorepoProcessorImpl\<close>, its implementation there.
\<close>

record MonorepoProcessor =
  mpFindComponents ::
    "filesystem \<Rightarrow> string \<Rightarrow> MonorepoConfig \<Rightarrow> MonorepoComponent list \<times> error option"
  mpNextVersion ::
    "MonorepoComponent \<Rightarrow> GitCommitLog list \<Rightarrow> SemVerCommitsProcessor \<Rightarrow> version option \<times> bool"
  mpUpdateVersion ::
    "filesystem \<Rightarrow> MonorepoComponent \<Rightarrow> version \<Rightarrow> MonorepoConfig \<Rightarrow> filesystem \<times> error option"

definition NextVersion ::
  "MonorepoComponent \<Rightarrow> GitCommitLog list \<Rightarrow> SemVerCommitsProcessor \<Rightarrow> version option \<times> bool" where
  "NextVersion component commits semverProc = semverProc (CurrentVersion component) commits"

definition MonorepoProcessorImpl :: "env \<Rightarrow> MonorepoProcessor" where
  "MonorepoProcessorImpl E =
     \<lparr>mpFindComponents = FindComponents E, mpNextVersion = NextVersion,
      mpUpdateVersion = UpdateVersion E\<rparr>"

section \<open>Commit ranges and the baseline\<close>

definition componentCommits ::
  "env \<Rightarrow> 'r Git \<Rightarrow> 'r \<Rightarrow> string \<Rightarrow> MonorepoComponent \<Rightarrow> error + GitCommitLog list" where
  "componentCommits E G r repoPath component =
     (case Rel E repoPath (RootPath component) of
        Inl e \<Rightarrow> Inl e
      | Inr relDir \<Rightarrow>
          Log G r (NewLogRangeWithPaths TagRange (LastComponentTag G r relDir) [] [relDir]))"

text \<open>
  \<^verbatim>\<open>componentBaseVersionAndCommits\<close> (cmd/git-sv/handlers.go) returns the base
  version, the commits and an error; its callers read the first two only when the error
  is nil, so the model returns the error or the pair. \<open>tier3\<close> is the code after the
  two `if` blocks, reached when either of them is not entered.
\<close>

definition componentBaseVersionAndCommits ::
  "env \<Rightarrow> 'r Git \<Rightarrow> 'r \<Rightarrow> string \<Rightarrow> MonorepoComponent \<Rightarrow> string
   \<Rightarrow> error + (version option \<times> GitCommitLog list)" where
  "componentBaseVersionAndCommits E G r repoPath component dotPath =
     (case Rel E repoPath (RootPath component) of
        Inl e \<Rightarrow> Inl e
      | Inr relDir \<Rightarrow>
          let lastTag = LastComponentTag G r relDir;
              tier3 =
                (case Log G r (NewLogRangeWithPaths TagRange [] [] [relDir]) of
                   Inl cerr \<Rightarrow> Inl cerr
                 | Inr commits \<Rightarrow> Inr (CurrentVersion component, commits))
          in
          if lastTag \<noteq> [] then
            (case Log G r (NewLogRangeWithPaths TagRange lastTag [] [relDir]) of
               Inl cerr \<Rightarrow> Inl cerr
             | Inr commits \<Rightarrow>
                 Inr (case ToVersion E (Base E lastTag) of
                        Inl _ \<Rightarrow> None
                      | Inr tagVer \<Rightarrow> Some tagVer,
                      commits))
          else
            (case Rel E repoPath (VersioningFilePath component) of
               Inl ferr \<Rightarrow> tier3
             | Inr relFile \<Rightarrow>
                 let fileCommit = LastFileCommit G r relFile in
                 if fileCommit \<noteq> [] then
                   (case Log G r (NewLogRangeWithPaths HashRange fileCommit [] [relDir]) of
                      Inl cerr \<Rightarrow> Inl cerr
                    | Inr commits \<Rightarrow>
                        (case ShowFile G r fileCommit relFile of
                           Inl serr \<Rightarrow> Inr (CurrentVersion component, commits)
                         | Inr content \<Rightarrow>
                             (case ReadVersionFromBytes E (VersioningFilePath component)
                                     content dotPath of
                                Inl verr \<Rightarrow> Inr (CurrentVersion component, commits)
                              | Inr baseVer \<Rightarrow> Inr (Some baseVer, commits))))
                 else tier3))"

section \<open>The monorepo handlers\<close>

text \<open>
  Modelled from the spec: the method \<^verbatim>\<open>Version.Equal\<close> is missing; it belongs to the
  semver library the repository imports. Section 3 of the specification orders versions
  by major, minor, patch and pre-release and has equality ignore the original literal;
  build metadata takes no part in either.
\<close>

definition Equal :: "version \<Rightarrow> version \<Rightarrow> bool" where
  "Equal a b \<longleftrightarrow>
     major a = major b \<and> minor a = minor b \<and> patch a = patch b
     \<and> prerelease a = prerelease b"

text \<open>
  What a handler does that can be observed: the lines it prints and the calls it makes to
  \<^verbatim>\<open>UpdateVersion\<close> and \<^verbatim>\<open>TagForComponent\<close>, in order. A printed version is kept as
  the version, not as its text.
\<close>

datatype event =
    PrintNoVersionChange string version
  | PrintAlreadyAt string version
  | PrintWritten string version string
  | PrintTag string string
  | CallUpdateVersion MonorepoComponent version
  | CallTagForComponent version string

text \<open>
  One iteration of the loop of \<^verbatim>\<open>monorepoUpdateVersionHandler\<close>: the events, the
  error that ends the handler if there is one, and the working tree afterwards. Where
  the code reads through a version pointer (\<^verbatim>\<open>baseVer.String()\<close>,
  \<^verbatim>\<open>nextVer.Equal(component.CurrentVersion)\<close>, \<^verbatim>\<open>*nextVer\<close>) a nil pointer is the panic
  \<open>NilDereference\<close>.
\<close>

definition updateStep ::
  "env \<Rightarrow> 'r Git \<Rightarrow> SemVerCommitsProcessor \<Rightarrow> MonorepoProcessor \<Rightarrow> MonorepoConfig \<Rightarrow> string
   \<Rightarrow> 'r \<Rightarrow> filesystem \<Rightarrow> MonorepoComponent \<Rightarrow> event list \<times> error option \<times> filesystem" where
  "updateStep E G S M cfg repoPath r fs component =
     (case componentBaseVersionAndCommits E G r repoPath component (Path cfg) of
        Inl cerr \<Rightarrow> ([], Some (GettingCommits (Name component) cerr), fs)
      | Inr (baseVer, commits) \<Rightarrow>
          (case S baseVer commits of
             (nextVer, updated) \<Rightarrow>
               if \<not> updated then
                 (case baseVer of
                    None \<Rightarrow> ([], Some NilDereference, fs)
                  | Some b \<Rightarrow> ([PrintNoVersionChange (Name component) b], None, fs))
               else
                 (case (nextVer, CurrentVersion component) of
                    (Some n, Some c) \<Rightarrow>
                      if Equal n c then ([PrintAlreadyAt (Name component) c], None, fs)
                      else
                        (case mpUpdateVersion M fs component n cfg of
                           (fs', Some uerr) \<Rightarrow>
                             ([CallUpdateVersion component n],
                              Some (UpdatingVersion (Name component) uerr), fs')
                         | (fs', None) \<Rightarrow>
                             ([CallUpdateVersion component n,
                               PrintWritten (Name component) n (VersioningFilePath component)],
                              None, fs'))
                  | _ \<Rightarrow> ([], Some NilDereference, fs))))"

fun updateLoop ::
  "env \<Rightarrow> 'r Git \<Rightarrow> SemVerCommitsProcessor \<Rightarrow> MonorepoProcessor \<Rightarrow> MonorepoConfig \<Rightarrow> string
   \<Rightarrow> 'r \<Rightarrow> filesystem \<Rightarrow> MonorepoComponent list \<Rightarrow> event list \<times> error option \<times> filesystem" where
  "updateLoop E G S M cfg repoPath r fs [] = ([], None, fs)"
| "updateLoop E G S M cfg repoPath r fs (component # rest) =
     (case updateStep E G S M cfg repoPath r fs component of
        (evs, Some err, fs') \<Rightarrow> (evs, Some err, fs')
      | (evs, None, fs') \<Rightarrow>
          (case updateLoop E G S M cfg repoPath r fs' rest of
             (evs', err, fs'') \<Rightarrow> (evs @ evs', err, fs'')))"

definition monorepoUpdateVersionHandler ::
  "env \<Rightarrow> 'r Git \<Rightarrow> SemVerCommitsProcessor \<Rightarrow> MonorepoProcessor \<Rightarrow> MonorepoConfig \<Rightarrow> string
   \<Rightarrow> 'r \<Rightarrow> filesystem \<Rightarrow> event list \<times> error option \<times> filesystem" where
  "monorepoUpdateVersionHandler E G S M cfg repoPath r fs =
     (case mpFindComponents M fs repoPath cfg of
        (components, Some err) \<Rightarrow> ([], Some (FindingComponents err), fs)
      | (components, None) \<Rightarrow> updateLoop E G S M cfg repoPath r fs components)"

text \<open>
  One iteration of the loop of \<^verbatim>\<open>monorepoTagHandler\<close>; the state is the working tree
  and the repository, which \<^verbatim>\<open>TagForComponent\<close> changes.
\<close>

definition tagStep ::
  "env \<Rightarrow> 'r Git \<Rightarrow> SemVerCommitsProcessor \<Rightarrow> MonorepoProcessor \<Rightarrow> MonorepoConfig \<Rightarrow> string
   \<Rightarrow> filesystem \<times> 'r \<Rightarrow> MonorepoComponent
   \<Rightarrow> event list \<times> error option \<times> filesystem \<times> 'r" where
  "tagStep E G S M cfg repoPath st component =
     (case st of (fs, r) \<Rightarrow>
      (case componentCommits E G r repoPath component of
         Inl cerr \<Rightarrow> ([], Some (GettingCommits (Name component) cerr), fs, r)
       | Inr commits \<Rightarrow>
           (case mpNextVersion M component commits S of
              (nextVer, updated) \<Rightarrow>
                if \<not> updated then
                  (case CurrentVersion component of
                     None \<Rightarrow> ([], Some NilDereference, fs, r)
                   | Some c \<Rightarrow> ([PrintNoVersionChange (Name component) c], None, fs, r))
                else
                  (case nextVer of
                     None \<Rightarrow> ([], Some NilDereference, fs, r)
                   | Some n \<Rightarrow>
                       (case mpUpdateVersion M fs component n cfg of
                          (fs', Some uerr) \<Rightarrow>
                            ([CallUpdateVersion component n],
                             Some (UpdatingVersion (Name component) uerr), fs', r)
                        | (fs', None) \<Rightarrow>
                            (case Rel E repoPath (RootPath component) of
                               Inl rerr \<Rightarrow>
                                 ([CallUpdateVersion component n],
                                  Some (ResolvingPath (Name component) rerr), fs', r)
                             | Inr relDir \<Rightarrow>
                                 (case TagForComponent G r n relDir of
                                    (r', Inl terr) \<Rightarrow>
                                      ([CallUpdateVersion component n,
                                        CallTagForComponent n relDir],
                                       Some (CreatingTag (Name component) terr), fs', r')
                                  | (r', Inr tagName) \<Rightarrow>
                                      ([CallUpdateVersion component n,
                                        CallTagForComponent n relDir,
                                        PrintTag (Name component) tagName],
                                       None, fs', r'))))))))"

fun tagLoop ::
  "env \<Rightarrow> 'r Git \<Rightarrow> SemVerCommitsProcessor \<Rightarrow> MonorepoProcessor \<Rightarrow> MonorepoConfig \<Rightarrow> string
   \<Rightarrow> filesystem \<times> 'r \<Rightarrow> MonorepoComponent list
   \<Rightarrow> event list \<times> error option \<times> filesystem \<times> 'r" where
  "tagLoop E G S M cfg repoPath st [] = ([], None, st)"
| "tagLoop E G S M cfg repoPath st (component # rest) =
     (case tagStep E G S M cfg repoPath st component of
        (evs, Some err, st') \<Rightarrow> (evs, Some err, st')
      | (evs, None, st') \<Rightarrow>
          (case tagLoop E G S M cfg repoPath st' rest of
             (evs', err, st'') \<Rightarrow> (evs @ evs', err, st'')))"

definition monorepoTagHandler ::
  "env \<Rightarrow> 'r Git \<Rightarrow> SemVerCommitsProcessor \<Rightarrow> MonorepoProcessor \<Rightarrow> MonorepoConfig \<Rightarrow> string
   \<Rightarrow> filesystem \<times> 'r \<Rightarrow> event list \<times> error option \<times> filesystem \<times> 'r" where
  "monorepoTagHandler E G S M cfg repoPath st =
     (case mpFindComponents M (fst st) repoPath cfg of
        (components, Some err) \<Rightarrow> ([], Some (FindingComponents err), st)
      | (components, None) \<Rightarrow> tagLoop E G S M cfg repoPath st components)"

section \<open>The bump resolver of the specification\<close>

text \<open>
  Modelled from the spec: the implementation of \<^verbatim>\<open>sv.SemVerCommitsProcessor\<close>
  (\<^verbatim>\<open>sv/semver.go\<close>) is missing. Section 4.2 of the specification:
  each entry is classified as major, minor, patch or none by the configured rules (the
  parameter \<open>classify\<close>); with no entry above none the result is the base and
  \<^verbatim>\<open>changed = false\<close>; otherwise the highest classification decides which field of
  the base is incremented (major resets minor and patch, minor resets patch, patch
  increments only patch). The specification does not say what the original literal of a
  computed version is; here it is its canonical string
  \<^verbatim>\<open>major.minor.patch[-pre][+build]\<close>.
\<close>

datatype bump = NoBump | PatchBump | MinorBump | MajorBump

fun rank :: "bump \<Rightarrow> nat" where
  "rank NoBump = 0"
| "rank PatchBump = 1"
| "rank MinorBump = 2"
| "rank MajorBump = 3"

fun highest :: "(GitCommitLog \<Rightarrow> bump) \<Rightarrow> GitCommitLog list \<Rightarrow> bump" where
  "highest classify [] = NoBump"
| "highest classify (c # cs) =
     (if rank (highest classify cs) < rank (classify c) then classify c
      else highest classify cs)"

definition digit_char :: "nat \<Rightarrow> char" where
  "digit_char d = ''0123456789'' ! d"

function show_nat :: "nat \<Rightarrow> string" where
  "show_nat n = (if n < 10 then [digit_char n] else show_nat (n div 10) @ [digit_char (n mod 10)])"
  by pat_completeness auto
termination
  by (relation "measure id") auto

definition toCanonicalString :: "version \<Rightarrow> string" where
  "toCanonicalString v =
     show_nat (major v) @ ''.'' @ show_nat (minor v) @ ''.'' @ show_nat (patch v)
     @ (if prerelease v = [] then [] else ''-'' @ prerelease v)
     @ (if metadata v = [] then [] else ''+'' @ metadata v)"

definition retext :: "version \<Rightarrow> version" where
  "retext v = v\<lparr>original := toCanonicalString v\<rparr>"

fun increment :: "bump \<Rightarrow> version \<Rightarrow> version" where
  "increment NoBump v = v"
| "increment PatchBump v = retext (v\<lparr>patch := patch v + 1\<rparr>)"
| "increment MinorBump v = retext (v\<lparr>minor := minor v + 1, patch := 0\<rparr>)"
| "increment MajorBump v = retext (v\<lparr>major := major v + 1, minor := 0, patch := 0\<rparr>)"

definition bumpResolver :: "(GitCommitLog \<Rightarrow> bump) \<Rightarrow> SemVerCommitsProcessor" where
  "bumpResolver classify base commits =
     (let b = highest classify commits in
      if b = NoBump then (base, False) else (map_option (increment b) base, True))"

section \<open>An example repository\<close>

text \<open>
  Collaborators for evaluating the model on concrete input, in the way the tests of the
  repository use mocks. Paths are slash-separated. The codec reads and writes documents
  that hold the single key \<^verbatim>\<open>version\<close>, as the line \<^verbatim>\<open>version: <text>\<close>; the JSON
  decoder accepts the newline \<^verbatim>\<open>marshalToFile\<close> appends. \<open>example_ToVersion\<close> reads
  plain \<^verbatim>\<open>major.minor.patch\<close> texts, with or without a leading \<^verbatim>\<open>v\<close>. \<open>example_Glob\<close> knows the two directories of the
  example.
\<close>

fun split_on :: "char \<Rightarrow> string \<Rightarrow> string list" where
  "split_on c [] = [[]]"
| "split_on c (x # xs) =
     (if x = c then [] # split_on c xs
      else (case split_on c xs of y # ys \<Rightarrow> (x # y) # ys | [] \<Rightarrow> [[x]]))"

definition digit_val :: "char \<Rightarrow> nat option" where
  "digit_val c = map_of (zip ''0123456789'' [0, 1, 2, 3, 4, 5, 6, 7, 8, 9]) c"

fun digits_val :: "nat \<Rightarrow> string \<Rightarrow> nat option" where
  "digits_val acc [] = Some acc"
| "digits_val acc (c # cs) =
     (case digit_val c of None \<Rightarrow> None | Some d \<Rightarrow> digits_val (10 * acc + d) cs)"

definition example_ToVersion :: "string \<Rightarrow> error + version" where
  "example_ToVersion s =
     (case split_on CHR ''.'' (if take 1 s = ''v'' then drop 1 s else s) of
        [a, b, c] \<Rightarrow>
          (if a = [] \<or> b = [] \<or> c = [] then Inl (External ''Invalid Semantic Version'')
           else
             (case (digits_val 0 a, digits_val 0 b, digits_val 0 c) of
                (Some x, Some y, Some z) \<Rightarrow>
                  Inr \<lparr>major = x, minor = y, patch = z, prerelease = [], metadata = [],
                       original = s\<rparr>
              | _ \<Rightarrow> Inl (External ''Invalid Semantic Version'')))
      | _ \<Rightarrow> Inl (External ''Invalid Semantic Version''))"

definition example_unmarshal :: "string \<Rightarrow> error + doc" where
  "example_unmarshal content =
     (if take 9 content = ''version: ''
      then Inr (fmupd ''version'' (VStr (drop 9 content)) fmempty)
      else Inl (External ''cannot decode''))"

definition example_marshal :: "doc \<Rightarrow> error + string" where
  "example_marshal data =
     (case fmlookup data ''version'' of
        Some (VStr s) \<Rightarrow>
          if data = fmupd ''version'' (VStr s) fmempty then Inr (''version: '' @ s)
          else Inl (External ''cannot encode'')
      | _ \<Rightarrow> Inl (External ''cannot encode''))"

definition example_Base :: "string \<Rightarrow> string" where
  "example_Base p = rev (takeWhile (\<lambda>c. c \<noteq> CHR ''/'') (rev p))"

definition example_Dir :: "string \<Rightarrow> string" where
  "example_Dir p = rev (drop 1 (dropWhile (\<lambda>c. c \<noteq> CHR ''/'') (rev p)))"

definition example_Ext :: "string \<Rightarrow> string" where
  "example_Ext p =
     (if CHR ''.'' \<in> set (example_Base p)
      then CHR ''.'' # rev (takeWhile (\<lambda>c. c \<noteq> CHR ''.'') (rev p))
      else [])"

definition example_Rel :: "string \<Rightarrow> string \<Rightarrow> error + string" where
  "example_Rel base target =
     (if take (length base + 1) target = base @ ''/''
      then Inr (drop (length base + 1) target)
      else Inl (External ''Rel: cannot make path relative''))"

definition example_ToLower :: "string \<Rightarrow> string" where
  "example_ToLower s =
     map (\<lambda>c. case map_of (zip ''ABCDEFGHIJKLMNOPQRSTUVWXYZ'' ''abcdefghijklmnopqrstuvwxyz'') c of
                 None \<Rightarrow> c
               | Some l \<Rightarrow> l) s"

definition example_Glob :: "filesystem \<Rightarrow> string \<Rightarrow> error + string list" where
  "example_Glob fs pattern =
     (if pattern = ''/repo/*/version.yml''
      then Inr (filter (\<lambda>p. p |\<in>| fmdom (files fs))
                  [''/repo/alpha/version.yml'', ''/repo/beta/version.yml''])
      else Inr [])"

definition example_env :: env where
  "example_env =
     \<lparr>jsonUnmarshal =
        (\<lambda>content. example_unmarshal
           (if content \<noteq> [] \<and> last content = CHR 0x0A then butlast content else content)),
      yamlUnmarshal = example_unmarshal,
      jsonMarshalIndent = example_marshal,
      yamlMarshal = example_marshal,
      ToVersion = example_ToVersion,
      Glob = example_Glob,
      Join = (\<lambda>a b. a @ ''/'' @ b),
      Dir = example_Dir,
      Base = example_Base,
      Ext = example_Ext,
      Rel = example_Rel,
      ToLower = example_ToLower\<rparr>"

definition example_cfg :: MonorepoConfig where
  "example_cfg = \<lparr>VersioningFile = ''*/version.yml'', Path = ''version''\<rparr>"

definition example_fs :: filesystem where
  "example_fs =
     \<lparr>files = fmupd ''/repo/alpha/version.yml'' ''version: 1.0.0'' fmempty, readonly = {||}\<rparr>"

text \<open>
  The history of the example: the commit \<^verbatim>\<open>c0\<close> added \<^verbatim>\<open>alpha/version.yml\<close> with
  version 1.0.0; two fixes under \<^verbatim>\<open>alpha/\<close> followed; one feature was committed under
  \<^verbatim>\<open>beta/\<close>, whose versioning file has never been committed. The state of the
  repository is its list of tags, the newest first, each with the commits made since.
\<close>

definition commit_c0 :: GitCommitLog where
  "commit_c0 =
     \<lparr>Hash = ''c0'', AuthorName = ''dev'', Date = ''2024-01-01'',
      Subject = ''docs: add alpha'', CommitType = ''docs'', Scope = [],
      IsBreakingChange = False\<rparr>"

definition commit_fix1 :: GitCommitLog where
  "commit_fix1 =
     \<lparr>Hash = ''f1'', AuthorName = ''dev'', Date = ''2024-01-02'',
      Subject = ''fix: first'', CommitType = ''fix'', Scope = [],
      IsBreakingChange = False\<rparr>"

definition commit_fix2 :: GitCommitLog where
  "commit_fix2 =
     \<lparr>Hash = ''f2'', AuthorName = ''dev'', Date = ''2024-01-03'',
      Subject = ''fix: second'', CommitType = ''fix'', Scope = [],
      IsBreakingChange = False\<rparr>"

definition commit_b0 :: GitCommitLog where
  "commit_b0 =
     \<lparr>Hash = ''b0'', AuthorName = ''dev'', Date = ''2024-01-04'',
      Subject = ''feat: start beta'', CommitType = ''feat'', Scope = [],
      IsBreakingChange = False\<rparr>"

type_synonym example_repo = "(string \<times> GitCommitLog list) list"

definition example_git :: "example_repo Git" where
  "example_git =
     \<lparr>LastComponentTag =
        (\<lambda>tags p. case filter (\<lambda>t. take (length p + 2) t = p @ ''/v'') (map fst tags) of
                     [] \<Rightarrow> []
                   | t # _ \<Rightarrow> t),
      Log =
        (\<lambda>tags lr.
           if lr = NewLogRangeWithPaths HashRange ''c0'' [] [''alpha'']
           then Inr [commit_fix2, commit_fix1]
           else if lr = NewLogRangeWithPaths TagRange [] [] [''alpha'']
           then Inr [commit_fix2, commit_fix1, commit_c0]
           else if lr = NewLogRangeWithPaths TagRange [] [] [''beta'']
           then Inr [commit_b0]
           else if rangeType lr = TagRange \<and> rangeEnd lr = []
           then (case map_of tags (rangeStart lr) of
                   None \<Rightarrow> Inl (External ''fatal: bad revision'')
                 | Some since \<Rightarrow> Inr since)
           else Inl (External ''fatal: bad revision'')),
      LastFileCommit = (\<lambda>tags p. if p = ''alpha/version.yml'' then ''c0'' else []),
      ShowFile =
        (\<lambda>tags c p. if c = ''c0'' \<and> p = ''alpha/version.yml'' then Inr ''version: 1.0.0''
                     else Inl (External ''fatal: path does not exist'')),
      TagForComponent =
        (\<lambda>tags v p. ((p @ ''/v'' @ toCanonicalString v, []) # tags,
                      Inr (p @ ''/v'' @ toCanonicalString v)))\<rparr>"

definition example_classify :: "GitCommitLog \<Rightarrow> bump" where
  "example_classify c =
     (if IsBreakingChange c then MajorBump
      else if CommitType c = ''feat'' then MinorBump
      else if CommitType c \<in> set [''fix'', ''perf'', ''refactor''] then PatchBump
      else NoBump)"

definition version_1_0_0 :: version where
  "version_1_0_0 =
     \<lparr>major = 1, minor = 0, patch = 0, prerelease = [], metadata = [], original = ''1.0.0''\<rparr>"

definition version_1_0_1 :: version where
  "version_1_0_1 =
     \<lparr>major = 1, minor = 0, patch = 1, prerelease = [], metadata = [], original = ''1.0.1''\<rparr>"

definition version_1_1_0 :: version where
  "version_1_1_0 =
     \<lparr>major = 1, minor = 1, patch = 0, prerelease = [], metadata = [], original = ''1.1.0''\<rparr>"

definition component_beta :: "version \<Rightarrow> MonorepoComponent" where
  "component_beta v =
     \<lparr>Name = ''beta'', RootPath = ''/repo/beta'',
      VersioningFilePath = ''/repo/beta/version.yml'', CurrentVersion = Some v\<rparr>"

definition component_alpha :: "version \<Rightarrow> MonorepoComponent" where
  "component_alpha v =
     \<lparr>Name = ''alpha'', RootPath = ''/repo/alpha'',
      VersioningFilePath = ''/repo/alpha/version.yml'', CurrentVersion = Some v\<rparr>"

text \<open>
  The codecs are libraries outside the repository. A property of theirs that the
  write-then-read round trip rests on: what a codec wrote, it decodes to the tree it was
  given (for JSON with the newline \<^verbatim>\<open>marshalToFile\<close> appends).
\<close>

definition codec_round_trip :: "env \<Rightarrow> bool" where
  "codec_round_trip E \<longleftrightarrow>
     (\<forall>d out. jsonMarshalIndent E d = Inr out \<longrightarrow> jsonUnmarshal E (out @ [CHR 0x0A]) = Inr d)
     \<and> (\<forall>d out. yamlMarshal E d = Inr out \<longrightarrow> yamlUnmarshal E out = Inr d)"

definition example_fs_broken :: filesystem where
  "example_fs_broken =
     \<lparr>files = fmupd ''/repo/beta/version.yml'' ''name: beta''
                (fmupd ''/repo/alpha/version.yml'' ''version: 1.0.0'' fmempty),
      readonly = {||}\<rparr>"

text \<open>
  The calls to \<^verbatim>\<open>UpdateVersion\<close> in a trace, in order, and the condition under which
  the update flow writes the version \<open>n\<close> for a component: the baseline resolves, the
  bump resolver reports \<^verbatim>\<open>updated\<close> with \<open>n\<close>, and \<open>n\<close> is not equal to the version
  the component has on disk.
\<close>

definition writes :: "event list \<Rightarrow> (MonorepoComponent \<times> version) list" where
  "writes evs = concat (map (\<lambda>e. case e of CallUpdateVersion c v \<Rightarrow> [(c, v)] | _ \<Rightarrow> []) evs)"

definition shouldWrite ::
  "env \<Rightarrow> 'r Git \<Rightarrow> SemVerCommitsProcessor \<Rightarrow> MonorepoConfig \<Rightarrow> string \<Rightarrow> 'r
   \<Rightarrow> MonorepoComponent \<Rightarrow> version \<Rightarrow> bool" where
  "shouldWrite E G S cfg repoPath r c n \<longleftrightarrow>
     (\<exists>baseVer commits cur.
        componentBaseVersionAndCommits E G r repoPath c (Path cfg) = Inr (baseVer, commits)
        \<and> S baseVer commits = (Some n, True)
        \<and> CurrentVersion c = Some cur \<and> \<not> Equal n cur)"

definition example_fs_bumped :: filesystem where
  "example_fs_bumped =
     \<lparr>files = fmupd ''/repo/alpha/version.yml'' ''version: 1.0.1'' fmempty, readonly = {||}\<rparr>"

section \<open>Properties of the path navigation\<close>

lemma fmupd_same: "fmlookup m k = Some v \<Longrightarrow> fmupd k v m = m"
  by (rule fmap_ext) auto

lemma setByPath_err_eq_get:
  "snd (setByPath data segs v) =
     (case getByPath data segs of Inl e \<Rightarrow> Some e | Inr _ \<Rightarrow> None)"
  by (induction data segs v rule: setByPath.induct)
     (auto split: option.splits val.splits prod.splits sum.splits)

lemma setByPath_unchanged_on_error:
  "snd (setByPath data segs v) \<noteq> None \<Longrightarrow> fst (setByPath data segs v) = data"
  by (induction data segs v rule: setByPath.induct)
     (auto split: option.splits val.splits prod.splits simp: fmupd_same)

lemma setByPath_then_get:
  "snd (setByPath data segs v) = None \<Longrightarrow>
   getByPath (fst (setByPath data segs v)) segs = Inr (VStr v)"
  by (induction data segs v rule: setByPath.induct)
     (auto split: option.splits val.splits prod.splits sum.splits)

lemma getByPath_snoc:
  "walk_to data pre = Some m \<Longrightarrow>
   getByPath data (pre @ [k]) =
     (case fmlookup m k of None \<Rightarrow> Inl (KeyNotFound k) | Some x \<Rightarrow> Inr x)"
proof (induction pre arbitrary: data)
  case Nil
  then show ?case by (simp split: option.splits)
next
  case (Cons s pre)
  then show ?case by (simp split: option.splits val.splits)
qed

lemma getByPath_snoc_None:
  "walk_to data pre = None \<Longrightarrow> \<exists>e. getByPath data (pre @ [k]) = Inl e"
proof (induction pre arbitrary: data)
  case Nil
  then show ?case by simp
next
  case (Cons s pre)
  then show ?case by (simp split: option.splits val.splits)
qed

lemma setByPath_no_new_paths:
  "getByPath (fst (setByPath data segs v)) p = Inr y \<Longrightarrow> \<exists>x. getByPath data p = Inr x"
proof (induction data segs v arbitrary: p y rule: setByPath.induct)
  case (1 data v)
  then show ?case by auto
next
  case (2 data s v)
  then show ?case
    by (cases p) (auto split: option.splits if_splits val.splits)
next
  case (3 data s t rest v)
  show ?case
  proof (cases p)
    case Nil
    with 3 show ?thesis by simp
  next
    case (Cons q qs)
    with 3 show ?thesis
      by (auto split: option.splits if_splits val.splits prod.splits)
  qed
qed

lemma setByPath_walk_result:
  "walk_to data pre = Some m \<Longrightarrow> k |\<in>| fmdom m \<Longrightarrow>
   walk_to (fst (setByPath data (pre @ [k]) v)) pre = Some (fmupd k (VStr v) m)"
proof (induction pre arbitrary: data)
  case Nil
  then show ?case by (auto split: option.splits simp: fmdom_notI)
next
  case (Cons s pre)
  then obtain nested
    where n: "fmlookup data s = Some (VMap nested)" "walk_to nested pre = Some m"
    by (auto split: option.splits val.splits)
  obtain t ts where ts: "pre @ [k] = t # ts" by (cases pre) auto
  from Cons.IH[OF n(2) Cons.prems(2)] n ts show ?case
    by (auto split: prod.splits)
qed

text \<open>
  \<^bold>\<open>C9\<close> (set is atomic on failure). Whenever \<^verbatim>\<open>setByPath\<close> returns an error, the
  document tree it was given is the tree it leaves: nothing was added, removed or
  modified at any depth. The error is one of the three the function can produce: empty
  path, key not found, value not a map.
\<close>

theorem setByPath_atomic_on_failure:
  assumes "snd (setByPath data segs v) = Some e"
  shows "fst (setByPath data segs v) = data
         \<and> (e = EmptyPath \<or> (\<exists>s. e = KeyNotFound s) \<or> (\<exists>s. e = NotAMap s))"
  using assms
proof (induction data segs v rule: setByPath.induct)
  case (1 data v)
  then show ?case by simp
next
  case (2 data s v)
  then show ?case by (auto split: option.splits)
next
  case (3 data s t rest v)
  show ?case
  proof (cases "fmlookup data s")
    case None
    with 3 show ?thesis by auto
  next
    case (Some x)
    show ?thesis
    proof (cases x)
      case (VMap nested)
      with Some 3 have inner: "snd (setByPath nested (t # rest) v) = Some e"
        by (simp split: prod.splits)
      from "3.IH"[OF Some VMap inner] Some VMap show ?thesis
        by (auto split: prod.splits simp: fmupd_same)
    qed (use Some 3 in auto)
  qed
qed

theorem setByPath_atomic_on_failure_witness:
  "setByPath example_doc [''name'', ''version''] ''2.0.0'' = (example_doc, Some (NotAMap ''name''))
   \<and> setByPath example_doc [''metadata'', ''release''] ''2.0.0''
       = (example_doc, Some (KeyNotFound ''release''))"
proof -
  have e1: "snd (setByPath example_doc [''name'', ''version''] ''2.0.0'') = Some (NotAMap ''name'')"
    by (simp add: example_doc_def fmlookup_of_list)
  have e2: "snd (setByPath example_doc [''metadata'', ''release''] ''2.0.0'')
              = Some (KeyNotFound ''release'')"
    by (simp add: example_doc_def fmlookup_of_list)
  from setByPath_atomic_on_failure[OF e1] setByPath_atomic_on_failure[OF e2] e1 e2
  show ?thesis by (simp add: prod_eq_iff)
qed

text \<open>
  \<^bold>\<open>C6\<close> (set never creates keys). For a non-empty segment sequence \<open>pre @ [k]\<close>:
  \<^verbatim>\<open>setByPath\<close> succeeds exactly when walking \<open>pre\<close> reaches a mapping that already has
  the key \<open>k\<close>; it then replaces the value of \<open>k\<close> in that mapping by the new string,
  which \<^verbatim>\<open>getByPath\<close> reads back; when the mapping reached lacks \<open>k\<close> the call fails
  with key-not-found and leaves the tree as it was; no path can be read from the result
  that could not be read before (nothing is auto-vivified); and the not-a-map failure is
  the one \<^verbatim>\<open>getByPath\<close> gives on the same input.
\<close>

theorem setByPath_never_creates_keys:
  "(snd (setByPath data (pre @ [k]) v) = None \<longleftrightarrow>
      (\<exists>m. walk_to data pre = Some m \<and> k |\<in>| fmdom m))
   \<and> (\<forall>m. walk_to data pre = Some m \<and> k |\<in>| fmdom m \<longrightarrow>
          walk_to (fst (setByPath data (pre @ [k]) v)) pre = Some (fmupd k (VStr v) m)
          \<and> getByPath (fst (setByPath data (pre @ [k]) v)) (pre @ [k]) = Inr (VStr v))
   \<and> (\<forall>m. walk_to data pre = Some m \<and> k |\<notin>| fmdom m \<longrightarrow>
          setByPath data (pre @ [k]) v = (data, Some (KeyNotFound k)))
   \<and> (\<forall>p y. getByPath (fst (setByPath data (pre @ [k]) v)) p = Inr y \<longrightarrow>
          (\<exists>x. getByPath data p = Inr x))
   \<and> (\<forall>s. getByPath data (pre @ [k]) = Inl (NotAMap s) \<longleftrightarrow>
          snd (setByPath data (pre @ [k]) v) = Some (NotAMap s))"
proof -
  let ?r = "setByPath data (pre @ [k]) v"
  have err: "snd ?r = (case getByPath data (pre @ [k]) of Inl e \<Rightarrow> Some e | Inr _ \<Rightarrow> None)"
    by (rule setByPath_err_eq_get)
  have a: "snd ?r = None \<longleftrightarrow> (\<exists>m. walk_to data pre = Some m \<and> k |\<in>| fmdom m)"
  proof (cases "walk_to data pre")
    case None
    from getByPath_snoc_None[OF None, of k]
    obtain e where "getByPath data (pre @ [k]) = Inl e" ..
    with err None show ?thesis by simp
  next
    case (Some m)
    from getByPath_snoc[OF Some, of k] err Some show ?thesis
      by (auto split: option.splits simp: fmdom_notI fmdom_notD dest: fmdomI)
  qed
  have b: "\<forall>m. walk_to data pre = Some m \<and> k |\<in>| fmdom m \<longrightarrow>
          walk_to (fst ?r) pre = Some (fmupd k (VStr v) m)
          \<and> getByPath (fst ?r) (pre @ [k]) = Inr (VStr v)"
    using a setByPath_walk_result setByPath_then_get by blast
  have c: "\<forall>m. walk_to data pre = Some m \<and> k |\<notin>| fmdom m \<longrightarrow>
             ?r = (data, Some (KeyNotFound k))"
  proof (intro allI impI)
    fix m assume h: "walk_to data pre = Some m \<and> k |\<notin>| fmdom m"
    then have "getByPath data (pre @ [k]) = Inl (KeyNotFound k)"
      using getByPath_snoc[of data pre m k] by (simp add: fmdom_notD)
    with err have e: "snd ?r = Some (KeyNotFound k)" by simp
    then have "fst ?r = data"
      using setByPath_unchanged_on_error[of data "pre @ [k]" v] by simp
    with e show "?r = (data, Some (KeyNotFound k))" by (simp add: prod_eq_iff)
  qed
  have d: "\<forall>p y. getByPath (fst ?r) p = Inr y \<longrightarrow> (\<exists>x. getByPath data p = Inr x)"
    using setByPath_no_new_paths by blast
  have e: "\<forall>s. getByPath data (pre @ [k]) = Inl (NotAMap s) \<longleftrightarrow> snd ?r = Some (NotAMap s)"
    using err by (auto split: sum.splits)
  from a b c d e show ?thesis by blast
qed

theorem setByPath_never_creates_keys_witness:
  "snd (setByPath example_doc [''metadata'', ''version''] ''1.1.0'') = None
   \<and> getByPath (fst (setByPath example_doc [''metadata'', ''version''] ''1.1.0''))
         [''metadata'', ''version''] = Inr (VStr ''1.1.0'')
   \<and> setByPath example_doc [''metadata'', ''release''] ''1.1.0''
       = (example_doc, Some (KeyNotFound ''release''))
   \<and> getByPath example_doc [''name'', ''version''] = Inl (NotAMap ''name'')
   \<and> snd (setByPath example_doc [''name'', ''version''] ''1.1.0'') = Some (NotAMap ''name'')"
proof -
  have w: "walk_to example_doc [''metadata''] = Some (fmap_of_list [(''version'', VStr ''1.0.0'')])"
    by (simp add: example_doc_def fmlookup_of_list)
  have k1: "''version'' |\<in>| fmdom (fmap_of_list [(''version'', VStr ''1.0.0'')])"
    by simp
  have k2: "''release'' |\<notin>| fmdom (fmap_of_list [(''version'', VStr ''1.0.0'')])"
    by simp
  have g: "getByPath example_doc [''name'', ''version''] = Inl (NotAMap ''name'')"
    by (simp add: example_doc_def fmlookup_of_list)
  from setByPath_never_creates_keys[of example_doc "[''metadata'']" "''version''" "''1.1.0''"]
       setByPath_never_creates_keys[of example_doc "[''metadata'']" "''release''" "''1.1.0''"]
       setByPath_never_creates_keys[of example_doc "[''name'']" "''version''" "''1.1.0''"]
       w k1 k2 g
  show ?thesis by simp
qed

section \<open>Properties of the path parser\<close>

lemma parseLoop_plain:
  "CHR ''.'' \<notin> set s \<Longrightarrow> CHR ''['' \<notin> set s \<Longrightarrow>
   parseLoop cur segs (s @ r) = parseLoop (cur @ s) segs r"
  by (induction s arbitrary: cur) auto

lemma written_no_leading_dot:
  "wf_path items \<Longrightarrow> skipDot (written items) = written items"
proof (cases items)
  case Nil
  then show ?thesis by simp
next
  case (Cons p rest)
  assume wf: "wf_path items"
  obtain it dot where p: "p = (it, dot)" by (cases p)
  show ?thesis
  proof (cases it)
    case (Key s)
    with wf Cons p obtain c cs where "s = c # cs" "c \<noteq> CHR ''.''"
      by (cases s) auto
    with Cons p Key show ?thesis by simp
  next
    case (Quoted q l)
    with Cons p show ?thesis by simp
  qed
qed

lemma parseLoop_quoted:
  assumes "q = DQ \<or> q = SQ" "q \<notin> set l"
  shows "parseLoop cur segs (CHR ''['' # q # l @ [q, CHR '']''] @ r)
         = parseLoop [] (flush cur segs @ [l]) (skipDot r)"
proof -
  have tw: "takeWhile (\<lambda>x. x \<noteq> q) (l @ q # CHR '']'' # r) = l"
    using assms(2) by (subst takeWhile_append2) auto
  have dw: "dropWhile (\<lambda>x. x \<noteq> q) (l @ q # CHR '']'' # r) = q # CHR '']'' # r"
    using assms(2) by (subst dropWhile_append2) auto
  show ?thesis using assms(1) tw dw by auto
qed

lemma parseLoop_written:
  "wf_path items \<Longrightarrow> (cur \<noteq> [] \<Longrightarrow> items = [] \<or> \<not> is_Key (fst (hd items))) \<Longrightarrow>
   parseLoop cur segs (written items) = Inr (flush cur segs @ map (segment \<circ> fst) items)"
proof (induction items arbitrary: cur segs)
  case Nil
  then show ?case by simp
next
  case (Cons p rest)
  obtain it dot where p: "p = (it, dot)" by (cases p)
  from Cons.prems(1) p have wfr: "wf_path rest" and wfi: "wf_item it" by auto
  show ?case
  proof (cases it)
    case (Key s)
    with Cons.prems(2) p have cur: "cur = []" by auto
    from wfi Key have s: "s \<noteq> []" "CHR ''.'' \<notin> set s" "CHR ''['' \<notin> set s" by auto
    show ?thesis
    proof (cases dot)
      case True
      have "parseLoop cur segs (written (p # rest))
            = parseLoop s segs (CHR ''.'' # written rest)"
        using p Key True cur parseLoop_plain[OF s(2,3), of "[]" segs "CHR ''.'' # written rest"]
        by simp
      also have "\<dots> = parseLoop [] (segs @ [s]) (written rest)"
        using s(1) by (simp add: flush_def)
      also have "\<dots> = Inr (flush [] (segs @ [s]) @ map (segment \<circ> fst) rest)"
        by (rule Cons.IH[OF wfr]) simp
      finally show ?thesis using p Key cur by (simp add: flush_def)
    next
      case False
      have nk: "rest = [] \<or> \<not> is_Key (fst (hd rest))"
        using Cons.prems(1) p Key False by auto
      have "parseLoop cur segs (written (p # rest)) = parseLoop s segs (written rest)"
        using p Key False cur parseLoop_plain[OF s(2,3), of "[]" segs "written rest"]
        by simp
      also have "\<dots> = Inr (flush s segs @ map (segment \<circ> fst) rest)"
        by (rule Cons.IH[OF wfr]) (use nk in simp)
      finally show ?thesis using p Key cur s(1) by (simp add: flush_def)
    qed
  next
    case (Quoted q l)
    from wfi Quoted have q: "q = DQ \<or> q = SQ" "q \<notin> set l" by auto
    have sk: "skipDot ((if dot then ''.'' else []) @ written rest) = written rest"
      using written_no_leading_dot[OF wfr] by simp
    have "parseLoop cur segs (written (p # rest))
          = parseLoop [] (flush cur segs @ [l]) (written rest)"
      using p Quoted parseLoop_quoted[OF q, of cur segs "(if dot then ''.'' else []) @ written rest"] sk
      by simp
    also have "\<dots> = Inr (flush [] (flush cur segs @ [l]) @ map (segment \<circ> fst) rest)"
      by (rule Cons.IH[OF wfr]) simp
    finally show ?thesis using p Quoted by (simp add: flush_def)
  qed
qed

lemma written_Cons_nonempty_no_dot:
  "wf_path items \<Longrightarrow> items \<noteq> [] \<Longrightarrow> written items \<noteq> [] \<and> hd (written items) \<noteq> CHR ''.''"
proof (cases items)
  case Nil
  assume "items \<noteq> []"
  with Nil show ?thesis by simp
next
  case (Cons p rest)
  assume wf: "wf_path items"
  obtain it dot where p: "p = (it, dot)" by (cases p)
  show ?thesis
  proof (cases it)
    case (Key s)
    with wf Cons p obtain c cs where "s = c # cs" "c \<noteq> CHR ''.''"
      by (cases s) auto
    with Cons p Key show ?thesis by simp
  next
    case (Quoted q l)
    with Cons p show ?thesis by simp
  qed
qed

text \<open>
  \<^bold>\<open>C5\<close> (path expression grammar). Every path written by the grammar (plain keys
  separated by dots, literals in \<^verbatim>\<open>["..."]\<close> or \<^verbatim>\<open>['...']\<close> taken verbatim with their
  dots, an optional dot after each item) parses to the keys its items stand for, with or
  without one leading dot. A literal cannot hold its own quote character, so there is no
  escaping. The two paths named by the specification are instances.
\<close>

theorem parsePath_grammar:
  "(items \<noteq> [] \<and> wf_path items \<longrightarrow>
      parsePath (written items) = Inr (map (segment \<circ> fst) items)
      \<and> parsePath (CHR ''.'' # written items) = Inr (map (segment \<circ> fst) items))
   \<and> parsePath ''metadata.version'' = Inr [''metadata'', ''version'']
   \<and> parsePath (''annotations['' @ [DQ] @ ''backstage.io/key'' @ [DQ] @ '']'')
       = Inr [''annotations'', ''backstage.io/key'']"
proof (intro conjI impI)
  assume h: "items \<noteq> [] \<and> wf_path items"
  then have w: "written items \<noteq> []" "hd (written items) \<noteq> CHR ''.''"
    using written_Cons_nonempty_no_dot by auto
  have l: "parseLoop [] [] (written items) = Inr (map (segment \<circ> fst) items)"
    using parseLoop_written[of items "[]" "[]"] h by (simp add: flush_def)
  show "parsePath (written items) = Inr (map (segment \<circ> fst) items)"
    using w l h by (simp add: parsePath_def)
  show "parsePath (CHR ''.'' # written items) = Inr (map (segment \<circ> fst) items)"
    using l h by (simp add: parsePath_def)
next
  show "parsePath ''metadata.version'' = Inr [''metadata'', ''version'']"
    by (simp add: parsePath_def flush_def)
  show "parsePath (''annotations['' @ [DQ] @ ''backstage.io/key'' @ [DQ] @ '']'')
       = Inr [''annotations'', ''backstage.io/key'']"
    by (simp add: parsePath_def flush_def)
qed

theorem parsePath_grammar_witness:
  "parsePath (''.metadata.annotations['' @ [DQ] @ ''backstage.io/my-key'' @ [DQ] @ '']'')
     = Inr [''metadata'', ''annotations'', ''backstage.io/my-key'']
   \<and> parsePath (''metadata['' @ [SQ] @ ''key.with.dots'' @ [SQ] @ ''].nested'')
     = Inr [''metadata'', ''key.with.dots'', ''nested'']"
  using parsePath_grammar
          [of "[(Key ''metadata'', True), (Key ''annotations'', False),
                (Quoted DQ ''backstage.io/my-key'', False)]"]
        parsePath_grammar
          [of "[(Key ''metadata'', False), (Quoted SQ ''key.with.dots'', True),
                (Key ''nested'', False)]"]
  by simp

section \<open>Properties of reading, writing and discovery\<close>

lemma ReadFile_after_WriteFile:
  "WriteFile fs p content = (fs', None) \<Longrightarrow> ReadFile fs' p = Inr content"
  by (auto simp: WriteFile_def ReadFile_def split: if_splits)

lemma marshalToFile_decodes:
  assumes "codec_round_trip E" "marshalToFile E fs p data = (fs', None)"
  shows "\<exists>content. ReadFile fs' p = Inr content \<and> parseFileContent E p content = Inr data"
proof (cases "ToLower E (Ext E p) = ''.json''")
  case True
  with assms(2) obtain out where o: "jsonMarshalIndent E data = Inr out"
      and w: "WriteFile fs p (out @ [CHR 0x0A]) = (fs', None)"
    by (auto simp: marshalToFile_def split: sum.splits)
  from assms(1) o have "jsonUnmarshal E (out @ [CHR 0x0A]) = Inr data"
    by (simp add: codec_round_trip_def)
  with True ReadFile_after_WriteFile[OF w] show ?thesis
    by (simp add: parseFileContent_def)
next
  case False
  with assms(2) obtain out where o: "yamlMarshal E data = Inr out"
      and w: "WriteFile fs p out = (fs', None)"
    by (auto simp: marshalToFile_def split: sum.splits)
  from assms(1) o have "yamlUnmarshal E out = Inr data"
    by (simp add: codec_round_trip_def)
  with False ReadFile_after_WriteFile[OF w] show ?thesis
    by (simp add: parseFileContent_def)
qed

lemma writeVersionToFile_success:
  assumes "writeVersionToFile E fs p dotPath ver = (fs', None)"
  shows "\<exists>content data segments data'.
           ReadFile fs p = Inr content \<and> parseFileContent E p content = Inr data
           \<and> parsePath dotPath = Inr segments
           \<and> setByPath data segments ver = (data', None)
           \<and> marshalToFile E fs p data' = (fs', None)"
  using assms
  by (auto simp: writeVersionToFile_def split: sum.splits prod.splits option.splits)

text \<open>
  \<^bold>\<open>C7\<close> (write-then-read round trip). With codecs that decode what they encoded:
  whenever \<^verbatim>\<open>UpdateVersion\<close> succeeds, the file it wrote decodes to a tree in which the
  configured path leads to the string \<^verbatim>\<open>version.Original()\<close>, the literal text of the
  version and not a reformatted one; \<^verbatim>\<open>readVersionFromFile\<close> then hands exactly that
  text to \<^verbatim>\<open>ToVersion\<close>.
\<close>

theorem write_then_read_round_trip:
  assumes "codec_round_trip E"
      and "UpdateVersion E fs component v cfg = (fs', None)"
  shows "(\<exists>content data segments.
            ReadFile fs' (VersioningFilePath component) = Inr content
            \<and> parseFileContent E (VersioningFilePath component) content = Inr data
            \<and> parsePath (Path cfg) = Inr segments
            \<and> getByPath data segments = Inr (VStr (original v)))
         \<and> readVersionFromFile E fs' (VersioningFilePath component) (Path cfg)
             = (case ToVersion E (original v) of
                  Inl e \<Rightarrow> Inl (InvalidSemver (Path cfg) (original v) e)
                | Inr w \<Rightarrow> Inr w)"
proof -
  let ?p = "VersioningFilePath component"
  from assms(2) have "writeVersionToFile E fs ?p (Path cfg) (original v) = (fs', None)"
    by (simp add: UpdateVersion_def)
  from writeVersionToFile_success[OF this]
  obtain content data segments data'
    where seg: "parsePath (Path cfg) = Inr segments"
      and set: "setByPath data segments (original v) = (data', None)"
      and wr: "marshalToFile E fs ?p data' = (fs', None)"
    by blast
  from marshalToFile_decodes[OF assms(1) wr]
  obtain written where rd: "ReadFile fs' ?p = Inr written"
      and dec: "parseFileContent E ?p written = Inr data'"
    by blast
  from setByPath_then_get[of data segments "original v"] set
  have get: "getByPath data' segments = Inr (VStr (original v))" by simp
  from rd dec seg get show ?thesis
    by (auto simp: readVersionFromFile_def ReadVersionFromBytes_def split: sum.splits)
qed

lemmas example_defs =
  example_env_def example_cfg_def example_fs_def example_fs_broken_def component_alpha_def
  example_Ext_def example_Base_def example_Dir_def example_Rel_def example_ToLower_def
  example_Glob_def example_unmarshal_def example_marshal_def example_ToVersion_def
  digit_val_def version_1_0_0_def version_1_0_1_def version_1_1_0_def component_beta_def
  example_fs_bumped_def

lemma example_codec_round_trip: "codec_round_trip example_env"
  unfolding codec_round_trip_def example_env_def
  by (auto simp: example_marshal_def example_unmarshal_def
           split: option.splits val.splits if_splits)

theorem write_then_read_round_trip_witness:
  "codec_round_trip example_env
   \<and> UpdateVersion example_env example_fs (component_alpha version_1_0_0) version_1_0_1 example_cfg
       = (example_fs\<lparr>files := fmupd ''/repo/alpha/version.yml'' ''version: 1.0.1''
                                   (files example_fs)\<rparr>, None)
   \<and> readVersionFromFile example_env
         (example_fs\<lparr>files := fmupd ''/repo/alpha/version.yml'' ''version: 1.0.1''
                                   (files example_fs)\<rparr>)
         ''/repo/alpha/version.yml'' ''version''
       = Inr version_1_0_1"
proof -
  have u: "UpdateVersion example_env example_fs (component_alpha version_1_0_0) version_1_0_1
             example_cfg
           = (example_fs\<lparr>files := fmupd ''/repo/alpha/version.yml'' ''version: 1.0.1''
                                       (files example_fs)\<rparr>, None)"
    by (simp add: UpdateVersion_def writeVersionToFile_def ReadFile_def WriteFile_def
          parseFileContent_def marshalToFile_def parsePath_def flush_def example_defs)
  have t: "ToVersion example_env (original version_1_0_1) = Inr version_1_0_1"
    by (simp add: example_defs)
  from write_then_read_round_trip[OF example_codec_round_trip u] t u example_codec_round_trip
  show ?thesis by (simp add: example_defs)
qed

lemma findLoop_fails:
  "\<exists>m\<in>set ms. \<exists>e. readVersionFromFile E fs m (Path cfg) = Inl e \<Longrightarrow>
   \<exists>e. findLoop E fs cfg acc ms = ([], Some e)"
proof (induction ms arbitrary: acc)
  case Nil
  then show ?case by simp
next
  case (Cons m ms)
  show ?case
  proof (cases "readVersionFromFile E fs m (Path cfg)")
    case (Inl e)
    then show ?thesis by simp
  next
    case (Inr v)
    with Cons.prems have "\<exists>m\<in>set ms. \<exists>e. readVersionFromFile E fs m (Path cfg) = Inl e"
      by auto
    from Cons.IH[OF this] Inr show ?thesis by simp
  qed
qed

lemma findLoop_no_partial:
  "snd (findLoop E fs cfg acc ms) \<noteq> None \<Longrightarrow> fst (findLoop E fs cfg acc ms) = []"
  by (induction ms arbitrary: acc) (auto split: sum.splits)

lemma findLoop_error_is_a_read_failure:
  "findLoop E fs cfg acc ms = (cs, Some err) \<Longrightarrow>
   \<exists>m\<in>set ms. \<exists>e. readVersionFromFile E fs m (Path cfg) = Inl e \<and> err = ReadingVersion m e"
  by (induction ms arbitrary: acc) (auto split: sum.splits)

lemma findLoop_succeeds:
  "\<forall>m\<in>set ms. \<exists>v. readVersionFromFile E fs m (Path cfg) = Inr v \<Longrightarrow>
   snd (findLoop E fs cfg acc ms) = None
   \<and> map VersioningFilePath (fst (findLoop E fs cfg acc ms)) = map VersioningFilePath acc @ ms"
  by (induction ms arbitrary: acc) (auto split: sum.splits)

lemma readVersionFromFile_succeeds_iff:
  "readVersionFromFile E fs p dotPath = Inr v \<longleftrightarrow>
     (\<exists>content data segments s.
        ReadFile fs p = Inr content \<and> parseFileContent E p content = Inr data
        \<and> parsePath dotPath = Inr segments \<and> getByPath data segments = Inr (VStr s)
        \<and> ToVersion E s = Inr v)"
  by (auto simp: readVersionFromFile_def ReadVersionFromBytes_def split: sum.splits val.splits)

text \<open>
  \<^bold>\<open>C8\<close> (discovery is fail-fast with no partial results). With a configured pattern:
  a pattern that cannot be compiled and a pattern without matches are errors; a list of
  matches gives one component per match when every match can be read, and otherwise the
  error of a match that cannot be read, with no component. Whenever
  \<^verbatim>\<open>FindComponents\<close> returns an error its component list is empty. A match can be read
  exactly when its file is read and decoded, the path parses and leads to a string, and
  that string is a version.
\<close>

theorem FindComponents_fail_fast:
  "(VersioningFile cfg \<noteq> [] \<longrightarrow>
      (\<forall>e. Glob E fs (Join E repoRoot (VersioningFile cfg)) = Inl e \<longrightarrow>
            FindComponents E fs repoRoot cfg = ([], Some (InvalidGlob (VersioningFile cfg) e)))
      \<and> (Glob E fs (Join E repoRoot (VersioningFile cfg)) = Inr [] \<longrightarrow>
            FindComponents E fs repoRoot cfg = ([], Some (NoFilesMatched (VersioningFile cfg))))
      \<and> (\<forall>matches. Glob E fs (Join E repoRoot (VersioningFile cfg)) = Inr matches \<longrightarrow>
            (if \<forall>m\<in>set matches. \<exists>v. readVersionFromFile E fs m (Path cfg) = Inr v
             then matches \<noteq> [] \<longrightarrow>
                  snd (FindComponents E fs repoRoot cfg) = None
                  \<and> map VersioningFilePath (fst (FindComponents E fs repoRoot cfg)) = matches
             else \<exists>m\<in>set matches. \<exists>e. readVersionFromFile E fs m (Path cfg) = Inl e
                  \<and> FindComponents E fs repoRoot cfg = ([], Some (ReadingVersion m e)))))
   \<and> (snd (FindComponents E fs repoRoot cfg) \<noteq> None \<longrightarrow>
        fst (FindComponents E fs repoRoot cfg) = [])
   \<and> (\<forall>p v. readVersionFromFile E fs p (Path cfg) = Inr v \<longleftrightarrow>
        (\<exists>content data segments s.
           ReadFile fs p = Inr content \<and> parseFileContent E p content = Inr data
           \<and> parsePath (Path cfg) = Inr segments \<and> getByPath data segments = Inr (VStr s)
           \<and> ToVersion E s = Inr v))"
proof (intro conjI impI allI)
  fix e
  assume "VersioningFile cfg \<noteq> []" "Glob E fs (Join E repoRoot (VersioningFile cfg)) = Inl e"
  then show "FindComponents E fs repoRoot cfg = ([], Some (InvalidGlob (VersioningFile cfg) e))"
    by (simp add: FindComponents_def)
next
  assume "VersioningFile cfg \<noteq> []" "Glob E fs (Join E repoRoot (VersioningFile cfg)) = Inr []"
  then show "FindComponents E fs repoRoot cfg = ([], Some (NoFilesMatched (VersioningFile cfg)))"
    by (simp add: FindComponents_def)
next
  fix matches
  assume c: "VersioningFile cfg \<noteq> []"
    and g: "Glob E fs (Join E repoRoot (VersioningFile cfg)) = Inr matches"
  show "if \<forall>m\<in>set matches. \<exists>v. readVersionFromFile E fs m (Path cfg) = Inr v
        then matches \<noteq> [] \<longrightarrow>
             snd (FindComponents E fs repoRoot cfg) = None
             \<and> map VersioningFilePath (fst (FindComponents E fs repoRoot cfg)) = matches
        else \<exists>m\<in>set matches. \<exists>e. readVersionFromFile E fs m (Path cfg) = Inl e
             \<and> FindComponents E fs repoRoot cfg = ([], Some (ReadingVersion m e))"
  proof (cases "\<forall>m\<in>set matches. \<exists>v. readVersionFromFile E fs m (Path cfg) = Inr v")
    case True
    from findLoop_succeeds[OF True, of "[]"] c g True show ?thesis
      by (simp add: FindComponents_def)
  next
    case False
    then have "\<exists>m\<in>set matches. \<exists>e. readVersionFromFile E fs m (Path cfg) = Inl e"
      by (metis sum.exhaust)
    from findLoop_fails[OF this, of "[]"] obtain err
      where l: "findLoop E fs cfg [] matches = ([], Some err)" by blast
    from findLoop_error_is_a_read_failure[OF l] obtain m e
      where "m \<in> set matches" "readVersionFromFile E fs m (Path cfg) = Inl e"
        "err = ReadingVersion m e" by blast
    moreover from this have "matches \<noteq> []" by auto
    ultimately show ?thesis using False c g l
      by (auto simp: FindComponents_def)
  qed
next
  assume "snd (FindComponents E fs repoRoot cfg) \<noteq> None"
  then show "fst (FindComponents E fs repoRoot cfg) = []"
    using findLoop_no_partial[of E fs cfg "[]"]
    by (auto simp: FindComponents_def split: if_splits sum.splits)
next
  fix p v
  show "readVersionFromFile E fs p (Path cfg) = Inr v \<longleftrightarrow>
        (\<exists>content data segments s.
           ReadFile fs p = Inr content \<and> parseFileContent E p content = Inr data
           \<and> parsePath (Path cfg) = Inr segments \<and> getByPath data segments = Inr (VStr s)
           \<and> ToVersion E s = Inr v)"
    by (rule readVersionFromFile_succeeds_iff)
qed

theorem FindComponents_fail_fast_witness:
  "FindComponents example_env example_fs_broken ''/repo'' example_cfg
     = ([], Some (ReadingVersion ''/repo/beta/version.yml''
                    (ParseYAML (External ''cannot decode''))))
   \<and> FindComponents example_env \<lparr>files = fmempty, readonly = {||}\<rparr> ''/repo'' example_cfg
     = ([], Some (NoFilesMatched ''*/version.yml''))"
proof -
  have c: "VersioningFile example_cfg \<noteq> []"
    by (simp add: example_defs)
  have g: "Glob example_env example_fs_broken (Join example_env ''/repo'' (VersioningFile example_cfg))
           = Inr [''/repo/alpha/version.yml'', ''/repo/beta/version.yml'']"
    by (simp add: example_defs)
  have g0: "Glob example_env \<lparr>files = fmempty, readonly = {||}\<rparr>
              (Join example_env ''/repo'' (VersioningFile example_cfg)) = Inr []"
    by (simp add: example_defs)
  have a: "readVersionFromFile example_env example_fs_broken ''/repo/alpha/version.yml''
             (Path example_cfg) = Inr version_1_0_0"
    by (simp add: readVersionFromFile_def ReadVersionFromBytes_def ReadFile_def
          parseFileContent_def parsePath_def flush_def example_defs)
  have b: "readVersionFromFile example_env example_fs_broken ''/repo/beta/version.yml''
             (Path example_cfg) = Inl (ParseYAML (External ''cannot decode''))"
    by (simp add: readVersionFromFile_def ReadVersionFromBytes_def ReadFile_def
          parseFileContent_def parsePath_def flush_def example_defs)
  from FindComponents_fail_fast
         [where E = example_env and fs = example_fs_broken and repoRoot = "''/repo''"
            and cfg = example_cfg]
       c g a b
  have 1: "FindComponents example_env example_fs_broken ''/repo'' example_cfg
             = ([], Some (ReadingVersion ''/repo/beta/version.yml''
                            (ParseYAML (External ''cannot decode''))))"
    by auto
  from FindComponents_fail_fast
         [where E = example_env and fs = "\<lparr>files = fmempty, readonly = {||}\<rparr>"
            and repoRoot = "''/repo''" and cfg = example_cfg]
       c g0
  have 2: "FindComponents example_env \<lparr>files = fmempty, readonly = {||}\<rparr> ''/repo'' example_cfg
             = ([], Some (NoFilesMatched ''*/version.yml''))"
    by (simp add: example_defs)
  from 1 2 show ?thesis by simp
qed

section \<open>Properties of the baseline and of the update flow\<close>

text \<open>
  \<^bold>\<open>C1\<close> (baseline tier selection). For a component whose directory resolves against
  the repository root, the tiers are tried in order and the first that applies decides.
  With a last component tag the base is what \<^verbatim>\<open>ToVersion\<close> reads from the base name of
  the tag and the commits are those of the tag range from that tag, restricted to the
  directory; nothing then depends on \<^verbatim>\<open>LastFileCommit\<close>, \<^verbatim>\<open>ShowFile\<close> or the version on
  disk. Without a tag and with a last commit of the versioning file, the commits are those
  of the hash range from that commit and the base is read from the file at that commit.
  With neither, the base is the version on disk and the commits are those of the tag
  range without a start, restricted to the directory.
\<close>

theorem baseline_tier_selection:
  assumes "Rel E repoPath (RootPath component) = Inr relDir"
  shows "(LastComponentTag G r relDir \<noteq> [] \<longrightarrow>
            componentBaseVersionAndCommits E G r repoPath component dotPath
              = (case Log G r (NewLogRangeWithPaths TagRange (LastComponentTag G r relDir) []
                                 [relDir]) of
                   Inl e \<Rightarrow> Inl e
                 | Inr commits \<Rightarrow>
                     Inr (case ToVersion E (Base E (LastComponentTag G r relDir)) of
                            Inl _ \<Rightarrow> None
                          | Inr tagVer \<Rightarrow> Some tagVer,
                          commits))
            \<and> (\<forall>lfc sf cv.
                  componentBaseVersionAndCommits E (G\<lparr>LastFileCommit := lfc, ShowFile := sf\<rparr>) r
                    repoPath (component\<lparr>CurrentVersion := cv\<rparr>) dotPath
                  = componentBaseVersionAndCommits E G r repoPath component dotPath))
       \<and> (\<forall>relFile.
            LastComponentTag G r relDir = []
            \<and> Rel E repoPath (VersioningFilePath component) = Inr relFile
            \<and> LastFileCommit G r relFile \<noteq> [] \<longrightarrow>
            componentBaseVersionAndCommits E G r repoPath component dotPath
              = (case Log G r (NewLogRangeWithPaths HashRange (LastFileCommit G r relFile) []
                                 [relDir]) of
                   Inl e \<Rightarrow> Inl e
                 | Inr commits \<Rightarrow>
                     Inr (case ShowFile G r (LastFileCommit G r relFile) relFile of
                            Inl _ \<Rightarrow> CurrentVersion component
                          | Inr content \<Rightarrow>
                              (case ReadVersionFromBytes E (VersioningFilePath component)
                                      content dotPath of
                                 Inl _ \<Rightarrow> CurrentVersion component
                               | Inr baseVer \<Rightarrow> Some baseVer),
                          commits)))
       \<and> (LastComponentTag G r relDir = []
            \<and> (\<forall>relFile. Rel E repoPath (VersioningFilePath component) = Inr relFile \<longrightarrow>
                   LastFileCommit G r relFile = []) \<longrightarrow>
            componentBaseVersionAndCommits E G r repoPath component dotPath
              = (case Log G r (NewLogRangeWithPaths TagRange [] [] [relDir]) of
                   Inl e \<Rightarrow> Inl e
                 | Inr commits \<Rightarrow> Inr (CurrentVersion component, commits)))"
proof (intro conjI impI allI)
  assume t: "LastComponentTag G r relDir \<noteq> []"
  with assms show "componentBaseVersionAndCommits E G r repoPath component dotPath
              = (case Log G r (NewLogRangeWithPaths TagRange (LastComponentTag G r relDir) []
                                 [relDir]) of
                   Inl e \<Rightarrow> Inl e
                 | Inr commits \<Rightarrow>
                     Inr (case ToVersion E (Base E (LastComponentTag G r relDir)) of
                            Inl _ \<Rightarrow> None
                          | Inr tagVer \<Rightarrow> Some tagVer,
                          commits))"
    by (simp add: componentBaseVersionAndCommits_def Let_def)
  fix lfc sf cv
  from assms t show "componentBaseVersionAndCommits E (G\<lparr>LastFileCommit := lfc, ShowFile := sf\<rparr>) r
                    repoPath (component\<lparr>CurrentVersion := cv\<rparr>) dotPath
                  = componentBaseVersionAndCommits E G r repoPath component dotPath"
    by (simp add: componentBaseVersionAndCommits_def Let_def)
next
  fix relFile
  assume "LastComponentTag G r relDir = []
            \<and> Rel E repoPath (VersioningFilePath component) = Inr relFile
            \<and> LastFileCommit G r relFile \<noteq> []"
  with assms show "componentBaseVersionAndCommits E G r repoPath component dotPath
              = (case Log G r (NewLogRangeWithPaths HashRange (LastFileCommit G r relFile) []
                                 [relDir]) of
                   Inl e \<Rightarrow> Inl e
                 | Inr commits \<Rightarrow>
                     Inr (case ShowFile G r (LastFileCommit G r relFile) relFile of
                            Inl _ \<Rightarrow> CurrentVersion component
                          | Inr content \<Rightarrow>
                              (case ReadVersionFromBytes E (VersioningFilePath component)
                                      content dotPath of
                                 Inl _ \<Rightarrow> CurrentVersion component
                               | Inr baseVer \<Rightarrow> Some baseVer),
                          commits))"
    by (simp add: componentBaseVersionAndCommits_def Let_def split: sum.splits)
next
  assume "LastComponentTag G r relDir = []
            \<and> (\<forall>relFile. Rel E repoPath (VersioningFilePath component) = Inr relFile \<longrightarrow>
                   LastFileCommit G r relFile = [])"
  with assms show "componentBaseVersionAndCommits E G r repoPath component dotPath
              = (case Log G r (NewLogRangeWithPaths TagRange [] [] [relDir]) of
                   Inl e \<Rightarrow> Inl e
                 | Inr commits \<Rightarrow> Inr (CurrentVersion component, commits))"
    by (simp add: componentBaseVersionAndCommits_def Let_def split: sum.splits)
qed

theorem baseline_tier_selection_witness:
  "componentBaseVersionAndCommits example_env example_git [(''alpha/v1.1.0'', [commit_fix2])]
     ''/repo'' (component_alpha version_1_0_0) ''version''
     = Inr (Some (version_1_1_0\<lparr>original := ''v1.1.0''\<rparr>), [commit_fix2])
   \<and> componentBaseVersionAndCommits example_env example_git [] ''/repo''
       (component_alpha version_1_0_1) ''version''
     = Inr (Some version_1_0_0, [commit_fix2, commit_fix1])
   \<and> componentBaseVersionAndCommits example_env example_git [] ''/repo''
       (component_beta version_1_0_0) ''version''
     = Inr (Some version_1_0_0, [commit_b0])"
proof -
  have ra: "Rel example_env ''/repo'' (RootPath (component_alpha v)) = Inr ''alpha''" for v
    by (simp add: example_defs)
  have rb: "Rel example_env ''/repo'' (RootPath (component_beta version_1_0_0)) = Inr ''beta''"
    by (simp add: example_defs)
  have fa: "Rel example_env ''/repo'' (VersioningFilePath (component_alpha v))
              = Inr ''alpha/version.yml''" for v
    by (simp add: example_defs)
  have fb: "Rel example_env ''/repo'' (VersioningFilePath (component_beta version_1_0_0))
              = Inr ''beta/version.yml''"
    by (simp add: example_defs)
  have t1: "LastComponentTag example_git [(''alpha/v1.1.0'', [commit_fix2])] ''alpha''
              = ''alpha/v1.1.0''"
    by (simp add: example_git_def)
  have t0: "LastComponentTag example_git [] p = []" for p
    by (simp add: example_git_def)
  have l1: "Log example_git [(''alpha/v1.1.0'', [commit_fix2])]
              (NewLogRangeWithPaths TagRange ''alpha/v1.1.0'' [] [''alpha''])
              = Inr [commit_fix2]"
    by (simp add: example_git_def NewLogRangeWithPaths_def)
  have v1: "ToVersion example_env (Base example_env ''alpha/v1.1.0'')
              = Inr (version_1_1_0\<lparr>original := ''v1.1.0''\<rparr>)"
    by (simp add: example_defs)
  have c2: "LastFileCommit example_git [] ''alpha/version.yml'' = ''c0''"
    by (simp add: example_git_def)
  have l2: "Log example_git [] (NewLogRangeWithPaths HashRange ''c0'' [] [''alpha''])
              = Inr [commit_fix2, commit_fix1]"
    by (simp add: example_git_def)
  have s2: "ShowFile example_git [] ''c0'' ''alpha/version.yml'' = Inr ''version: 1.0.0''"
    by (simp add: example_git_def)
  have p2: "ReadVersionFromBytes example_env (VersioningFilePath (component_alpha version_1_0_1))
              ''version: 1.0.0'' ''version'' = Inr version_1_0_0"
    by (simp add: ReadVersionFromBytes_def parseFileContent_def parsePath_def flush_def
          example_defs)
  have c3: "LastFileCommit example_git [] ''beta/version.yml'' = []"
    by (simp add: example_git_def)
  have l3: "Log example_git [] (NewLogRangeWithPaths TagRange [] [] [''beta''])
              = Inr [commit_b0]"
    by (simp add: example_git_def NewLogRangeWithPaths_def)
  have cb: "CurrentVersion (component_beta version_1_0_0) = Some version_1_0_0"
    by (simp add: example_defs)
  from baseline_tier_selection
         [where component = "component_alpha version_1_0_0" and G = example_git
            and r = "[(''alpha/v1.1.0'', [commit_fix2])]" and dotPath = "''version''", OF ra]
       t1 l1 v1
  have 1: "componentBaseVersionAndCommits example_env example_git
             [(''alpha/v1.1.0'', [commit_fix2])] ''/repo'' (component_alpha version_1_0_0)
             ''version''
           = Inr (Some (version_1_1_0\<lparr>original := ''v1.1.0''\<rparr>), [commit_fix2])"
    by simp
  from baseline_tier_selection
         [where component = "component_alpha version_1_0_1" and G = example_git
            and r = "[]" and dotPath = "''version''", OF ra]
       t0 fa c2 l2 s2 p2
  have 2: "componentBaseVersionAndCommits example_env example_git [] ''/repo''
             (component_alpha version_1_0_1) ''version''
           = Inr (Some version_1_0_0, [commit_fix2, commit_fix1])"
    by simp
  from baseline_tier_selection
         [where G = example_git and r = "[]" and dotPath = "''version''", OF rb]
       t0 fb c3 l3 cb
  have 3: "componentBaseVersionAndCommits example_env example_git [] ''/repo''
             (component_beta version_1_0_0) ''version''
           = Inr (Some version_1_0_0, [commit_b0])"
    by simp
  from 1 2 3 show ?thesis by simp
qed

text \<open>
  \<^bold>\<open>C2\<close> (tier-2 anchoring and fallback). For a component without a component tag
  whose versioning file has a last commit, and whose history since that commit was
  fetched: when \<^verbatim>\<open>ShowFile\<close> returns the content of the file at that commit and a version
  is read from it, that version is the base, whatever version the component has on disk;
  when \<^verbatim>\<open>ShowFile\<close> fails or no version can be read from the content, the base is the
  version on disk. In both cases the resolver succeeds with the commits since the file
  commit.
\<close>

theorem tier2_anchor_and_fallback:
  assumes "Rel E repoPath (RootPath component) = Inr relDir"
      and "LastComponentTag G r relDir = []"
      and "Rel E repoPath (VersioningFilePath component) = Inr relFile"
      and "LastFileCommit G r relFile = fileCommit"
      and "fileCommit \<noteq> []"
      and "Log G r (NewLogRangeWithPaths HashRange fileCommit [] [relDir]) = Inr commits"
  shows "(\<forall>content v.
            ShowFile G r fileCommit relFile = Inr content
            \<and> ReadVersionFromBytes E (VersioningFilePath component) content dotPath = Inr v \<longrightarrow>
            (\<forall>cv. componentBaseVersionAndCommits E G r repoPath
                     (component\<lparr>CurrentVersion := cv\<rparr>) dotPath
                   = Inr (Some v, commits)))
         \<and> ((\<exists>e. ShowFile G r fileCommit relFile = Inl e)
             \<or> (\<exists>content e. ShowFile G r fileCommit relFile = Inr content
                   \<and> ReadVersionFromBytes E (VersioningFilePath component) content dotPath
                       = Inl e) \<longrightarrow>
            componentBaseVersionAndCommits E G r repoPath component dotPath
              = Inr (CurrentVersion component, commits))"
  using assms
  by (auto simp: componentBaseVersionAndCommits_def Let_def)

theorem tier2_anchor_and_fallback_witness:
  "componentBaseVersionAndCommits example_env example_git [] ''/repo''
     (component_alpha version_1_0_1) ''version''
     = Inr (Some version_1_0_0, [commit_fix2, commit_fix1])
   \<and> componentBaseVersionAndCommits example_env
       (example_git\<lparr>ShowFile := \<lambda>r c p. Inl (External ''fatal: bad object'')\<rparr>) []
       ''/repo'' (component_alpha version_1_0_1) ''version''
     = Inr (Some version_1_0_1, [commit_fix2, commit_fix1])"
proof -
  let ?c = "component_alpha version_1_0_1"
  let ?G = "example_git\<lparr>ShowFile := \<lambda>r c p. Inl (External ''fatal: bad object'')\<rparr>"
  have r: "Rel example_env ''/repo'' (RootPath ?c) = Inr ''alpha''"
    by (simp add: example_defs)
  have f: "Rel example_env ''/repo'' (VersioningFilePath ?c) = Inr ''alpha/version.yml''"
    by (simp add: example_defs)
  have t: "LastComponentTag example_git [] ''alpha'' = []"
          "LastComponentTag ?G [] ''alpha'' = []"
    by (simp_all add: example_git_def)
  have c: "LastFileCommit example_git [] ''alpha/version.yml'' = ''c0''"
          "LastFileCommit ?G [] ''alpha/version.yml'' = ''c0''"
    by (simp_all add: example_git_def)
  have n: "''c0'' \<noteq> []" by simp
  have l: "Log example_git [] (NewLogRangeWithPaths HashRange ''c0'' [] [''alpha''])
             = Inr [commit_fix2, commit_fix1]"
          "Log ?G [] (NewLogRangeWithPaths HashRange ''c0'' [] [''alpha''])
             = Inr [commit_fix2, commit_fix1]"
    by (simp_all add: example_git_def)
  have s: "ShowFile example_git [] ''c0'' ''alpha/version.yml'' = Inr ''version: 1.0.0''"
    by (simp add: example_git_def)
  have s': "ShowFile ?G [] ''c0'' ''alpha/version.yml'' = Inl (External ''fatal: bad object'')"
    by simp
  have p: "ReadVersionFromBytes example_env (VersioningFilePath ?c) ''version: 1.0.0''
             ''version'' = Inr version_1_0_0"
    by (simp add: ReadVersionFromBytes_def parseFileContent_def parsePath_def flush_def
          example_defs)
  have cv: "?c\<lparr>CurrentVersion := Some version_1_0_1\<rparr> = ?c"
           "CurrentVersion ?c = Some version_1_0_1"
    by (simp_all add: example_defs)
  from tier2_anchor_and_fallback[where dotPath = "''version''", OF r t(1) f c(1) n l(1)] s p cv
  have 1: "componentBaseVersionAndCommits example_env example_git [] ''/repo'' ?c ''version''
           = Inr (Some version_1_0_0, [commit_fix2, commit_fix1])"
    by metis
  from tier2_anchor_and_fallback[where dotPath = "''version''", OF r t(2) f c(2) n l(2)] s' cv
  have 2: "componentBaseVersionAndCommits example_env ?G [] ''/repo'' ?c ''version''
           = Inr (Some version_1_0_1, [commit_fix2, commit_fix1])"
    by metis
  from 1 2 show ?thesis by simp
qed

lemma updateStep_cases:
  assumes "componentBaseVersionAndCommits E G r repoPath c (Path cfg) = Inr (baseVer, commits)"
      and "S baseVer commits = (nextVer, updated)"
  shows "updateStep E G S M cfg repoPath r fs c =
     (if \<not> updated then
        (case baseVer of
           None \<Rightarrow> ([], Some NilDereference, fs)
         | Some b \<Rightarrow> ([PrintNoVersionChange (Name c) b], None, fs))
      else
        (case (nextVer, CurrentVersion c) of
           (Some n, Some cur) \<Rightarrow>
             if Equal n cur then ([PrintAlreadyAt (Name c) cur], None, fs)
             else
               (case mpUpdateVersion M fs c n cfg of
                  (fs', Some uerr) \<Rightarrow>
                    ([CallUpdateVersion c n], Some (UpdatingVersion (Name c) uerr), fs')
                | (fs', None) \<Rightarrow>
                    ([CallUpdateVersion c n, PrintWritten (Name c) n (VersioningFilePath c)],
                     None, fs'))
         | _ \<Rightarrow> ([], Some NilDereference, fs)))"
  using assms by (simp add: updateStep_def)

lemma writes_simps [simp]:
  "writes [] = []"
  "writes (CallUpdateVersion c v # evs) = (c, v) # writes evs"
  "writes (PrintNoVersionChange a b # evs) = writes evs"
  "writes (PrintAlreadyAt a b # evs) = writes evs"
  "writes (PrintWritten a b d # evs) = writes evs"
  "writes (PrintTag a d # evs) = writes evs"
  "writes (CallTagForComponent b d # evs) = writes evs"
  "writes (xs @ ys) = writes xs @ writes ys"
  by (simp_all add: writes_def)

lemma updateStep_writes:
  "writes (fst (updateStep E G S M cfg repoPath r fs c)) =
     (case componentBaseVersionAndCommits E G r repoPath c (Path cfg) of
        Inl _ \<Rightarrow> []
      | Inr (baseVer, commits) \<Rightarrow>
          (case (S baseVer commits, CurrentVersion c) of
             ((Some n, True), Some cur) \<Rightarrow> if Equal n cur then [] else [(c, n)]
           | _ \<Rightarrow> []))"
  by (auto simp: updateStep_def split: sum.splits prod.splits option.splits bool.splits)

lemma updateStep_no_write_same_fs:
  "writes (fst (updateStep E G S M cfg repoPath r fs c)) = [] \<Longrightarrow>
   snd (snd (updateStep E G S M cfg repoPath r fs c)) = fs"
  by (auto simp: updateStep_def split: sum.splits prod.splits option.splits bool.splits if_splits)

lemma updateStep_writes_shouldWrite:
  assumes "(c', n) \<in> set (writes (fst (updateStep E G S M cfg repoPath r fs c)))"
  shows "c' = c \<and> shouldWrite E G S cfg repoPath r c n"
proof (cases "componentBaseVersionAndCommits E G r repoPath c (Path cfg)")
  case (Inl e)
  with assms show ?thesis by (simp add: updateStep_writes)
next
  case (Inr p)
  obtain baseVer commits where p: "p = (baseVer, commits)" by (cases p)
  obtain nextVer updated where s: "S baseVer commits = (nextVer, updated)"
    by (cases "S baseVer commits")
  show ?thesis
  proof (cases "CurrentVersion c")
    case None
    with assms Inr p s show ?thesis
      by (auto simp: updateStep_writes split: option.splits bool.splits)
  next
    case (Some cur)
    with assms Inr p s
    have "c' = c \<and> nextVer = Some n \<and> updated \<and> \<not> Equal n cur"
      by (auto simp: updateStep_writes split: option.splits bool.splits if_splits)
    with Inr p s Some show ?thesis by (auto simp: shouldWrite_def)
  qed
qed

lemma updateLoop_writes:
  "(c, n) \<in> set (writes (fst (updateLoop E G S M cfg repoPath r fs cs))) \<Longrightarrow>
   c \<in> set cs \<and> shouldWrite E G S cfg repoPath r c n"
proof (induction cs arbitrary: fs)
  case Nil
  then show ?case by simp
next
  case (Cons x xs)
  obtain evs err fs' where st: "updateStep E G S M cfg repoPath r fs x = (evs, err, fs')"
    by (cases "updateStep E G S M cfg repoPath r fs x") auto
  show ?case
  proof (cases err)
    case (Some e)
    with Cons.prems st have "(c, n) \<in> set (writes (fst (updateStep E G S M cfg repoPath r fs x)))"
      by simp
    from updateStep_writes_shouldWrite[OF this] show ?thesis by simp
  next
    case None
    obtain evs' err' fs'' where lp: "updateLoop E G S M cfg repoPath r fs' xs = (evs', err', fs'')"
      by (cases "updateLoop E G S M cfg repoPath r fs' xs") auto
    from Cons.prems st None lp have "(c, n) \<in> set (writes evs) \<or> (c, n) \<in> set (writes evs')"
      by auto
    then show ?thesis
    proof
      assume "(c, n) \<in> set (writes evs)"
      with st have "(c, n) \<in> set (writes (fst (updateStep E G S M cfg repoPath r fs x)))" by simp
      from updateStep_writes_shouldWrite[OF this] show ?thesis by simp
    next
      assume "(c, n) \<in> set (writes evs')"
      with lp have "(c, n) \<in> set (writes (fst (updateLoop E G S M cfg repoPath r fs' xs)))" by simp
      from Cons.IH[OF this] show ?thesis by simp
    qed
  qed
qed

lemma updateLoop_no_write_same_fs:
  "writes (fst (updateLoop E G S M cfg repoPath r fs cs)) = [] \<Longrightarrow>
   snd (snd (updateLoop E G S M cfg repoPath r fs cs)) = fs"
proof (induction cs arbitrary: fs)
  case Nil
  then show ?case by simp
next
  case (Cons x xs)
  obtain evs err fs' where st: "updateStep E G S M cfg repoPath r fs x = (evs, err, fs')"
    by (cases "updateStep E G S M cfg repoPath r fs x") auto
  obtain evs' err' fs'' where lp: "updateLoop E G S M cfg repoPath r fs' xs = (evs', err', fs'')"
    by (cases "updateLoop E G S M cfg repoPath r fs' xs") auto
  from Cons.prems st lp have w: "writes evs = []"
    by (cases err) auto
  with st updateStep_no_write_same_fs[of E G S M cfg repoPath r fs x] have f: "fs' = fs" by simp
  show ?case
  proof (cases err)
    case (Some e)
    with st f show ?thesis by simp
  next
    case None
    with Cons.prems st lp have "writes evs' = []" by simp
    with lp Cons.IH[of fs'] have "fs'' = fs'" by simp
    with None st lp f show ?thesis by simp
  qed
qed

text \<open>
  \<^bold>\<open>C3\<close> (idempotency enforcement point). In one iteration of the update flow, for a
  component whose baseline resolved: when the bump resolver reports no update there is no
  call to \<^verbatim>\<open>UpdateVersion\<close> and the working tree stays as it is; when it reports an update
  and the next version equals the version on disk, the iteration only prints that the
  component is already at that version; when the next version differs, \<^verbatim>\<open>UpdateVersion\<close>
  is called once, with the next version. Over the whole handler, every call to
  \<^verbatim>\<open>UpdateVersion\<close> is for a discovered component, with a version the resolver reported
  as an update and that differs from the version on disk; a run without such a call
  leaves the working tree as it was.
\<close>

theorem update_only_when_changed_and_different:
  "(componentBaseVersionAndCommits E G r repoPath c (Path cfg) = Inr (baseVer, commits)
      \<and> S baseVer commits = (nextVer, updated) \<longrightarrow>
      (\<not> updated \<longrightarrow>
         writes (fst (updateStep E G S M cfg repoPath r fs c)) = []
         \<and> snd (snd (updateStep E G S M cfg repoPath r fs c)) = fs)
      \<and> (\<forall>n cur. updated \<and> nextVer = Some n \<and> CurrentVersion c = Some cur \<and> Equal n cur \<longrightarrow>
            updateStep E G S M cfg repoPath r fs c = ([PrintAlreadyAt (Name c) cur], None, fs))
      \<and> (\<forall>n cur. updated \<and> nextVer = Some n \<and> CurrentVersion c = Some cur \<and> \<not> Equal n cur \<longrightarrow>
            writes (fst (updateStep E G S M cfg repoPath r fs c)) = [(c, n)]
            \<and> snd (snd (updateStep E G S M cfg repoPath r fs c))
                = fst (mpUpdateVersion M fs c n cfg)))
   \<and> (\<forall>x n. (x, n) \<in> set (writes (fst (monorepoUpdateVersionHandler E G S M cfg repoPath r fs)))
         \<longrightarrow> x \<in> set (fst (mpFindComponents M fs repoPath cfg))
             \<and> shouldWrite E G S cfg repoPath r x n)
   \<and> (writes (fst (monorepoUpdateVersionHandler E G S M cfg repoPath r fs)) = [] \<longrightarrow>
        snd (snd (monorepoUpdateVersionHandler E G S M cfg repoPath r fs)) = fs)"
proof (intro conjI allI impI)
  assume h: "componentBaseVersionAndCommits E G r repoPath c (Path cfg) = Inr (baseVer, commits)
      \<and> S baseVer commits = (nextVer, updated)"
  note uc = updateStep_cases[of E G r repoPath c cfg baseVer commits S nextVer updated M fs]
  {
    assume "\<not> updated"
    with h uc show "writes (fst (updateStep E G S M cfg repoPath r fs c)) = []"
      by (simp split: option.splits)
    from \<open>\<not> updated\<close> h uc show "snd (snd (updateStep E G S M cfg repoPath r fs c)) = fs"
      by (simp split: option.splits)
  }
  {
    fix n cur
    assume "updated \<and> nextVer = Some n \<and> CurrentVersion c = Some cur \<and> Equal n cur"
    with h uc show "updateStep E G S M cfg repoPath r fs c = ([PrintAlreadyAt (Name c) cur], None, fs)"
      by simp
  }
  {
    fix n cur
    assume a: "updated \<and> nextVer = Some n \<and> CurrentVersion c = Some cur \<and> \<not> Equal n cur"
    with h uc show "writes (fst (updateStep E G S M cfg repoPath r fs c)) = [(c, n)]"
      by (simp split: prod.splits option.splits)
    from a h uc show "snd (snd (updateStep E G S M cfg repoPath r fs c))
                = fst (mpUpdateVersion M fs c n cfg)"
      by (simp split: prod.splits option.splits)
  }
next
  fix x n
  assume w: "(x, n) \<in> set (writes (fst (monorepoUpdateVersionHandler E G S M cfg repoPath r fs)))"
  obtain cs ferr where f: "mpFindComponents M fs repoPath cfg = (cs, ferr)"
    by (cases "mpFindComponents M fs repoPath cfg") auto
  with w have "ferr = None" and
    "(x, n) \<in> set (writes (fst (updateLoop E G S M cfg repoPath r fs cs)))"
    by (auto simp: monorepoUpdateVersionHandler_def split: option.splits)
  from updateLoop_writes[OF this(2)] f
  show "x \<in> set (fst (mpFindComponents M fs repoPath cfg))"
    and "shouldWrite E G S cfg repoPath r x n" by simp_all
next
  assume w: "writes (fst (monorepoUpdateVersionHandler E G S M cfg repoPath r fs)) = []"
  show "snd (snd (monorepoUpdateVersionHandler E G S M cfg repoPath r fs)) = fs"
  proof (cases "mpFindComponents M fs repoPath cfg")
    case (Pair cs ferr)
    show ?thesis
    proof (cases ferr)
      case None
      with Pair w updateLoop_no_write_same_fs[of E G S M cfg repoPath r fs cs] show ?thesis
        by (simp add: monorepoUpdateVersionHandler_def)
    next
      case (Some e)
      with Pair show ?thesis by (simp add: monorepoUpdateVersionHandler_def)
    qed
  qed
qed

section \<open>The example repository, the idempotent scenario and the tag flow\<close>

lemma example_baseline:
  "componentBaseVersionAndCommits example_env example_git [] ''/repo'' (component_alpha v)
     ''version'' = Inr (Some version_1_0_0, [commit_fix2, commit_fix1])"
  by (simp add: componentBaseVersionAndCommits_def example_git_def ReadVersionFromBytes_def
        parseFileContent_def parsePath_def flush_def example_defs)

lemma example_bump:
  "bumpResolver example_classify (Some version_1_0_0) [commit_fix2, commit_fix1]
     = (Some version_1_0_1, True)"
  by (simp add: bumpResolver_def example_classify_def commit_fix1_def commit_fix2_def
        toCanonicalString_def retext_def digit_char_def version_1_0_0_def version_1_0_1_def)

lemma example_find:
  "FindComponents example_env example_fs ''/repo'' example_cfg
     = ([component_alpha version_1_0_0], None)"
  "FindComponents example_env example_fs_bumped ''/repo'' example_cfg
     = ([component_alpha version_1_0_1], None)"
  by (simp_all add: FindComponents_def readVersionFromFile_def ReadFile_def
        ReadVersionFromBytes_def parseFileContent_def parsePath_def flush_def example_defs)

lemma example_write:
  "UpdateVersion example_env example_fs (component_alpha version_1_0_0) version_1_0_1 example_cfg
     = (example_fs_bumped, None)"
  by (simp add: UpdateVersion_def writeVersionToFile_def ReadFile_def WriteFile_def
        parseFileContent_def marshalToFile_def parsePath_def flush_def example_defs)

lemma example_Equal:
  "Equal version_1_0_1 version_1_0_1" "\<not> Equal version_1_0_1 version_1_0_0"
  by (simp_all add: Equal_def version_1_0_0_def version_1_0_1_def)


theorem update_only_when_changed_and_different_witness:
  "updateStep example_env example_git (bumpResolver example_classify)
     (MonorepoProcessorImpl example_env) example_cfg ''/repo'' [] example_fs_bumped
     (component_alpha version_1_0_1)
     = ([PrintAlreadyAt ''alpha'' version_1_0_1], None, example_fs_bumped)
   \<and> writes (fst (updateStep example_env example_git (bumpResolver example_classify)
                    (MonorepoProcessorImpl example_env) example_cfg ''/repo'' [] example_fs
                    (component_alpha version_1_0_0)))
     = [(component_alpha version_1_0_0, version_1_0_1)]
   \<and> writes (fst (updateStep example_env example_git (\<lambda>base commits. (base, False))
                    (MonorepoProcessorImpl example_env) example_cfg ''/repo'' [] example_fs
                    (component_alpha version_1_0_0)))
     = []"
proof -
  have p: "Path example_cfg = ''version''" by (simp add: example_cfg_def)
  have cv: "CurrentVersion (component_alpha v) = Some v" "Name (component_alpha v) = ''alpha''"
    for v
    by (simp_all add: component_alpha_def)
  have b: "componentBaseVersionAndCommits example_env example_git [] ''/repo''
             (component_alpha v) (Path example_cfg)
           = Inr (Some version_1_0_0, [commit_fix2, commit_fix1])" for v
    using example_baseline[of v] p by simp
  have n: "(\<lambda>base commits. (base, False)) (Some version_1_0_0) [commit_fix2, commit_fix1]
           = (Some version_1_0_0, False)"
    by simp
  from update_only_when_changed_and_different
         [where E = example_env and G = example_git and S = "bumpResolver example_classify"
            and M = "MonorepoProcessorImpl example_env" and cfg = example_cfg
            and repoPath = "''/repo''" and r = "[]" and fs = example_fs_bumped
            and c = "component_alpha version_1_0_1" and baseVer = "Some version_1_0_0"
            and commits = "[commit_fix2, commit_fix1]" and nextVer = "Some version_1_0_1"
            and updated = True]
       b[of version_1_0_1] example_bump example_Equal(1) cv
  have 1: "updateStep example_env example_git (bumpResolver example_classify)
             (MonorepoProcessorImpl example_env) example_cfg ''/repo'' [] example_fs_bumped
             (component_alpha version_1_0_1)
           = ([PrintAlreadyAt ''alpha'' version_1_0_1], None, example_fs_bumped)"
    by simp
  from update_only_when_changed_and_different
         [where E = example_env and G = example_git and S = "bumpResolver example_classify"
            and M = "MonorepoProcessorImpl example_env" and cfg = example_cfg
            and repoPath = "''/repo''" and r = "[]" and fs = example_fs
            and c = "component_alpha version_1_0_0" and baseVer = "Some version_1_0_0"
            and commits = "[commit_fix2, commit_fix1]" and nextVer = "Some version_1_0_1"
            and updated = True]
       b[of version_1_0_0] example_bump example_Equal(2) cv
  have 2: "writes (fst (updateStep example_env example_git (bumpResolver example_classify)
                          (MonorepoProcessorImpl example_env) example_cfg ''/repo'' [] example_fs
                          (component_alpha version_1_0_0)))
           = [(component_alpha version_1_0_0, version_1_0_1)]"
    by simp
  from update_only_when_changed_and_different
         [where E = example_env and G = example_git and S = "\<lambda>base commits. (base, False)"
            and M = "MonorepoProcessorImpl example_env" and cfg = example_cfg
            and repoPath = "''/repo''" and r = "[]" and fs = example_fs
            and c = "component_alpha version_1_0_0" and baseVer = "Some version_1_0_0"
            and commits = "[commit_fix2, commit_fix1]" and nextVer = "Some version_1_0_0"
            and updated = False]
       b[of version_1_0_0] n
  have 3: "writes (fst (updateStep example_env example_git (\<lambda>base commits. (base, False))
                          (MonorepoProcessorImpl example_env) example_cfg ''/repo'' [] example_fs
                          (component_alpha version_1_0_0)))
           = []"
    by simp
  from 1 2 3 show ?thesis by simp
qed

lemma componentCommits_ignores_file_anchor:
  "componentCommits E (G\<lparr>LastFileCommit := lfc, ShowFile := sf\<rparr>) r repoPath c
     = componentCommits E G r repoPath c"
  by (simp add: componentCommits_def split: sum.splits)

lemma tagStep_ignores_file_anchor:
  "tagStep E (G\<lparr>LastFileCommit := lfc, ShowFile := sf\<rparr>) S M cfg repoPath st c
     = tagStep E G S M cfg repoPath st c"
  by (simp add: tagStep_def componentCommits_ignores_file_anchor
           split: prod.splits sum.splits option.splits)

lemma tagLoop_ignores_file_anchor:
  "tagLoop E (G\<lparr>LastFileCommit := lfc, ShowFile := sf\<rparr>) S M cfg repoPath st cs
     = tagLoop E G S M cfg repoPath st cs"
  by (induction cs arbitrary: st)
     (simp_all add: tagStep_ignores_file_anchor split: prod.splits option.splits)

text \<open>
  \<^bold>\<open>C10\<close> (the tag flow does not use the file anchor). The result of
  \<^verbatim>\<open>monorepoTagHandler\<close> is the same whatever \<^verbatim>\<open>LastFileCommit\<close> and \<^verbatim>\<open>ShowFile\<close>
  answer. The commits of a component are those of the tag range that starts at its last
  component tag (the empty start, all commits of the directory, when there is none),
  restricted to its directory. With \<^verbatim>\<open>MonorepoProcessorImpl\<close> the base handed to the bump
  resolver is the version on disk. When the resolver reports no update nothing is written
  or tagged; when it reports an update, \<^verbatim>\<open>UpdateVersion\<close> is called with the next
  version and, after a successful write, \<^verbatim>\<open>TagForComponent\<close>; this also happens when the
  next version is the version on disk, since the flow compares nothing.
\<close>

theorem tag_flow_ignores_file_anchor:
  "(\<forall>lfc sf.
      monorepoTagHandler E (G\<lparr>LastFileCommit := lfc, ShowFile := sf\<rparr>) S M cfg repoPath st
        = monorepoTagHandler E G S M cfg repoPath st)
   \<and> (Rel E repoPath (RootPath c) = Inr relDir \<longrightarrow>
         componentCommits E G r repoPath c
           = Log G r \<lparr>rangeType = TagRange, rangeStart = LastComponentTag G r relDir,
                      rangeEnd = [], paths = [relDir]\<rparr>)
   \<and> (componentCommits E G r repoPath c = Inr commits
         \<and> S (CurrentVersion c) commits = (nextVer, False) \<longrightarrow>
         writes (fst (tagStep E G S (MonorepoProcessorImpl E) cfg repoPath (fs, r) c)) = []
         \<and> snd (snd (tagStep E G S (MonorepoProcessorImpl E) cfg repoPath (fs, r) c)) = (fs, r))
   \<and> (componentCommits E G r repoPath c = Inr commits
         \<and> S (CurrentVersion c) commits = (Some n, True) \<longrightarrow>
         writes (fst (tagStep E G S (MonorepoProcessorImpl E) cfg repoPath (fs, r) c)) = [(c, n)]
         \<and> (UpdateVersion E fs c n cfg = (fs', None)
              \<and> Rel E repoPath (RootPath c) = Inr relDir
              \<and> TagForComponent G r n relDir = (r', Inr tagName) \<longrightarrow>
              tagStep E G S (MonorepoProcessorImpl E) cfg repoPath (fs, r) c
                = ([CallUpdateVersion c n, CallTagForComponent n relDir,
                    PrintTag (Name c) tagName], None, fs', r')))
   \<and> (componentCommits E G r repoPath c = Inr commits
         \<and> CurrentVersion c = Some cur
         \<and> S (Some cur) commits = (Some cur, True) \<longrightarrow>
         writes (fst (tagStep E G S (MonorepoProcessorImpl E) cfg repoPath (fs, r) c))
           = [(c, cur)])"
proof (intro conjI allI impI)
  fix lfc sf
  show "monorepoTagHandler E (G\<lparr>LastFileCommit := lfc, ShowFile := sf\<rparr>) S M cfg repoPath st
        = monorepoTagHandler E G S M cfg repoPath st"
    by (simp add: monorepoTagHandler_def tagLoop_ignores_file_anchor
             split: prod.splits option.splits)
next
  assume "Rel E repoPath (RootPath c) = Inr relDir"
  then show "componentCommits E G r repoPath c
           = Log G r \<lparr>rangeType = TagRange, rangeStart = LastComponentTag G r relDir,
                      rangeEnd = [], paths = [relDir]\<rparr>"
    by (simp add: componentCommits_def NewLogRangeWithPaths_def)
next
  assume h: "componentCommits E G r repoPath c = Inr commits
         \<and> S (CurrentVersion c) commits = (nextVer, False)"
  then show "writes (fst (tagStep E G S (MonorepoProcessorImpl E) cfg repoPath (fs, r) c)) = []"
    by (simp add: tagStep_def MonorepoProcessorImpl_def NextVersion_def split: option.splits)
  from h show "snd (snd (tagStep E G S (MonorepoProcessorImpl E) cfg repoPath (fs, r) c)) = (fs, r)"
    by (simp add: tagStep_def MonorepoProcessorImpl_def NextVersion_def split: option.splits)
next
  assume h: "componentCommits E G r repoPath c = Inr commits
         \<and> S (CurrentVersion c) commits = (Some n, True)"
  then show "writes (fst (tagStep E G S (MonorepoProcessorImpl E) cfg repoPath (fs, r) c)) = [(c, n)]"
    by (simp add: tagStep_def MonorepoProcessorImpl_def NextVersion_def
             split: option.splits prod.splits sum.splits)
  assume "UpdateVersion E fs c n cfg = (fs', None)
                \<and> Rel E repoPath (RootPath c) = Inr relDir
                \<and> TagForComponent G r n relDir = (r', Inr tagName)"
  with h show "tagStep E G S (MonorepoProcessorImpl E) cfg repoPath (fs, r) c
                  = ([CallUpdateVersion c n, CallTagForComponent n relDir,
                      PrintTag (Name c) tagName], None, fs', r')"
    by (simp add: tagStep_def MonorepoProcessorImpl_def NextVersion_def)
next
  assume "componentCommits E G r repoPath c = Inr commits
         \<and> CurrentVersion c = Some cur
         \<and> S (Some cur) commits = (Some cur, True)"
  then show "writes (fst (tagStep E G S (MonorepoProcessorImpl E) cfg repoPath (fs, r) c))
           = [(c, cur)]"
    by (simp add: tagStep_def MonorepoProcessorImpl_def NextVersion_def
             split: option.splits prod.splits sum.splits)
qed

theorem tag_flow_ignores_file_anchor_witness:
  "monorepoTagHandler example_env example_git (bumpResolver example_classify)
     (MonorepoProcessorImpl example_env) example_cfg ''/repo'' (example_fs, [])
     = ([CallUpdateVersion (component_alpha version_1_0_0) version_1_0_1,
         CallTagForComponent version_1_0_1 ''alpha'',
         PrintTag ''alpha'' ''alpha/v1.0.1''],
        None, example_fs_bumped, [(''alpha/v1.0.1'', [])])
   \<and> writes (fst (tagStep example_env example_git (\<lambda>base commits. (base, True))
                    (MonorepoProcessorImpl example_env) example_cfg ''/repo'' (example_fs, [])
                    (component_alpha version_1_0_0)))
     = [(component_alpha version_1_0_0, version_1_0_0)]"
proof -
  let ?c = "component_alpha version_1_0_0"
  let ?S = "bumpResolver example_classify"
  let ?M = "MonorepoProcessorImpl example_env"
  have cv: "CurrentVersion ?c = Some version_1_0_0" "Name ?c = ''alpha''"
    by (simp_all add: component_alpha_def)
  have rel: "Rel example_env ''/repo'' (RootPath ?c) = Inr ''alpha''"
    by (simp add: example_defs)
  have cc: "componentCommits example_env example_git [] ''/repo'' ?c
            = Inr [commit_fix2, commit_fix1, commit_c0]"
    by (simp add: componentCommits_def example_git_def NewLogRangeWithPaths_def example_defs)
  have s0: "?S (Some version_1_0_0) [commit_fix2, commit_fix1, commit_c0]
            = (Some version_1_0_1, True)"
    by (simp add: bumpResolver_def example_classify_def commit_fix1_def commit_fix2_def
          commit_c0_def toCanonicalString_def retext_def digit_char_def version_1_0_0_def
          version_1_0_1_def)
  have s: "?S (CurrentVersion ?c) [commit_fix2, commit_fix1, commit_c0]
           = (Some version_1_0_1, True)"
    using s0 by (simp only: cv)
  have t: "TagForComponent example_git [] version_1_0_1 ''alpha''
           = ([(''alpha/v1.0.1'', [])], Inr ''alpha/v1.0.1'')"
    by (simp add: example_git_def toCanonicalString_def digit_char_def version_1_0_1_def)
  from tag_flow_ignores_file_anchor[where E = example_env and G = example_git and S = ?S and cfg = example_cfg
             and M = ?M and st = "(example_fs, [])" and nextVer = None and cur = version_1_0_0
             and repoPath = "''/repo''" and c = ?c and r = "[]" and fs = example_fs
             and commits = "[commit_fix2, commit_fix1, commit_c0]" and n = version_1_0_1
             and fs' = example_fs_bumped and relDir = "''alpha''"
             and r' = "[(''alpha/v1.0.1'', [])]" and tagName = "''alpha/v1.0.1''"]
       cc s example_write rel t cv
  have st: "tagStep example_env example_git ?S ?M example_cfg ''/repo'' (example_fs, []) ?c
            = ([CallUpdateVersion ?c version_1_0_1, CallTagForComponent version_1_0_1 ''alpha'',
                PrintTag ''alpha'' ''alpha/v1.0.1''],
               None, example_fs_bumped, [(''alpha/v1.0.1'', [])])"
    by (simp only: simp_thms)
  have 1: "monorepoTagHandler example_env example_git ?S ?M example_cfg ''/repo''
             (example_fs, [])
           = ([CallUpdateVersion ?c version_1_0_1, CallTagForComponent version_1_0_1 ''alpha'',
               PrintTag ''alpha'' ''alpha/v1.0.1''],
              None, example_fs_bumped, [(''alpha/v1.0.1'', [])])"
  proof -
    have m: "mpFindComponents ?M = FindComponents example_env"
      by (simp add: MonorepoProcessorImpl_def)
    show ?thesis
      unfolding monorepoTagHandler_def
      by (simp add: m example_find(1) st)
  qed
  from tag_flow_ignores_file_anchor[where E = example_env and G = example_git and S = "\<lambda>base commits. (base, True)"
             and cfg = example_cfg and repoPath = "''/repo''" and c = ?c and r = "[]"
             and fs = example_fs and commits = "[commit_fix2, commit_fix1, commit_c0]"
             and cur = version_1_0_0 and M = ?M and st = "(example_fs, [])" and nextVer = None
             and n = version_1_0_0 and fs' = example_fs and relDir = "''alpha''"
             and r' = "[]" and tagName = "[]"]
       cc cv
  have 2: "writes (fst (tagStep example_env example_git (\<lambda>base commits. (base, True)) ?M
                          example_cfg ''/repo'' (example_fs, []) ?c))
           = [(?c, version_1_0_0)]"
    by (simp only: simp_thms)
  from 1 2 show ?thesis by simp
qed

text \<open>
  \<^bold>\<open>C4\<close> (end-to-end idempotent scenario). The component \<^verbatim>\<open>alpha\<close> is at 1.0.0 on
  disk, has no component tag, its versioning file was committed once, with 1.0.0, and two
  commits touched \<^verbatim>\<open>alpha/\<close> since. The bump resolver is the one the handler is given;
  it takes 1.0.0 and these two commits, which classify as patch, to 1.0.1 with
  \<^verbatim>\<open>changed = true\<close>. Then: discovery finds the component at 1.0.0; the baseline is
  1.0.0 with the two commits; the update flow writes 1.0.1. Run again on the working tree
  it left, with the same history, the flow finds the component at 1.0.1, resolves the same
  baseline, so that 1.0.1 is computed again, reports that the component is already at
  1.0.1 and writes nothing: the working tree stays as the first run left it.
\<close>

theorem end_to_end_idempotent_scenario:
  assumes "S (Some version_1_0_0) [commit_fix2, commit_fix1] = (Some version_1_0_1, True)"
  shows
  "FindComponents example_env example_fs ''/repo'' example_cfg
     = ([component_alpha version_1_0_0], None)
   \<and> LastComponentTag example_git [] ''alpha'' = []
   \<and> LastFileCommit example_git [] ''alpha/version.yml'' = ''c0''
   \<and> ShowFile example_git [] ''c0'' ''alpha/version.yml'' = Inr ''version: 1.0.0''
   \<and> componentBaseVersionAndCommits example_env example_git [] ''/repo''
       (component_alpha version_1_0_0) ''version''
     = Inr (Some version_1_0_0, [commit_fix2, commit_fix1])
   \<and> monorepoUpdateVersionHandler example_env example_git S
       (MonorepoProcessorImpl example_env) example_cfg ''/repo'' [] example_fs
     = ([CallUpdateVersion (component_alpha version_1_0_0) version_1_0_1,
         PrintWritten ''alpha'' version_1_0_1 ''/repo/alpha/version.yml''],
        None, example_fs_bumped)
   \<and> FindComponents example_env example_fs_bumped ''/repo'' example_cfg
     = ([component_alpha version_1_0_1], None)
   \<and> componentBaseVersionAndCommits example_env example_git [] ''/repo''
       (component_alpha version_1_0_1) ''version''
     = Inr (Some version_1_0_0, [commit_fix2, commit_fix1])
   \<and> monorepoUpdateVersionHandler example_env example_git S
       (MonorepoProcessorImpl example_env) example_cfg ''/repo'' [] example_fs_bumped
     = ([PrintAlreadyAt ''alpha'' version_1_0_1], None, example_fs_bumped)"
proof -
  let ?M = "MonorepoProcessorImpl example_env"
  have p: "Path example_cfg = ''version''" by (simp add: example_cfg_def)
  have g: "LastComponentTag example_git [] ''alpha'' = []"
    "LastFileCommit example_git [] ''alpha/version.yml'' = ''c0''"
    "ShowFile example_git [] ''c0'' ''alpha/version.yml'' = Inr ''version: 1.0.0''"
    by (simp_all add: example_git_def)
  have cv: "CurrentVersion (component_alpha v) = Some v" "Name (component_alpha v) = ''alpha''"
    "VersioningFilePath (component_alpha v) = ''/repo/alpha/version.yml''" for v
    by (simp_all add: component_alpha_def)
  have m: "mpFindComponents ?M = FindComponents example_env"
    "mpUpdateVersion ?M = UpdateVersion example_env"
    by (simp_all add: MonorepoProcessorImpl_def)
  have s1: "updateStep example_env example_git S ?M example_cfg ''/repo'' [] example_fs
              (component_alpha version_1_0_0)
            = ([CallUpdateVersion (component_alpha version_1_0_0) version_1_0_1,
                PrintWritten ''alpha'' version_1_0_1 ''/repo/alpha/version.yml''],
               None, example_fs_bumped)"
    using example_baseline[of version_1_0_0] assms example_Equal(2) example_write
    by (simp add: updateStep_def p cv m)
  have s2: "updateStep example_env example_git S ?M example_cfg ''/repo'' [] example_fs_bumped
              (component_alpha version_1_0_1)
            = ([PrintAlreadyAt ''alpha'' version_1_0_1], None, example_fs_bumped)"
    using example_baseline[of version_1_0_1] assms example_Equal(1)
    by (simp add: updateStep_def p cv)
  have h1: "monorepoUpdateVersionHandler example_env example_git S ?M example_cfg ''/repo'' []
              example_fs
            = ([CallUpdateVersion (component_alpha version_1_0_0) version_1_0_1,
                PrintWritten ''alpha'' version_1_0_1 ''/repo/alpha/version.yml''],
               None, example_fs_bumped)"
    by (simp add: monorepoUpdateVersionHandler_def m example_find(1) s1)
  have h2: "monorepoUpdateVersionHandler example_env example_git S ?M example_cfg ''/repo'' []
              example_fs_bumped
            = ([PrintAlreadyAt ''alpha'' version_1_0_1], None, example_fs_bumped)"
    by (simp add: monorepoUpdateVersionHandler_def m example_find(2) s2)
  from example_find g example_baseline h1 h2 show ?thesis
    by simp
qed

theorem end_to_end_idempotent_scenario_witness:
  "map example_classify [commit_fix2, commit_fix1] = [PatchBump, PatchBump]
   \<and> bumpResolver example_classify (Some version_1_0_0) [commit_fix2, commit_fix1]
     = (Some version_1_0_1, True)
   \<and> monorepoUpdateVersionHandler example_env example_git (bumpResolver example_classify)
       (MonorepoProcessorImpl example_env) example_cfg ''/repo'' [] example_fs
     = ([CallUpdateVersion (component_alpha version_1_0_0) version_1_0_1,
         PrintWritten ''alpha'' version_1_0_1 ''/repo/alpha/version.yml''],
        None, example_fs_bumped)
   \<and> monorepoUpdateVersionHandler example_env example_git (bumpResolver example_classify)
       (MonorepoProcessorImpl example_env) example_cfg ''/repo'' [] example_fs_bumped
     = ([PrintAlreadyAt ''alpha'' version_1_0_1], None, example_fs_bumped)"
proof -
  have cl: "map example_classify [commit_fix2, commit_fix1] = [PatchBump, PatchBump]"
    by (simp add: example_classify_def commit_fix1_def commit_fix2_def)
  from end_to_end_idempotent_scenario[where S = "bumpResolver example_classify", OF example_bump]
       cl example_bump
  show ?thesis by (simp only: simp_thms)
qed

end
